theory Spec2Isabelle
  imports Complex_Main "HOL-Library.Word"
begin

section \<open>Data model\<close>

text \<open>
  The development embeds the client synchronisation layer of the file storage
  front end: the three hooks of \<^verbatim>\<open>hooks/useQueries.ts\<close> and the event handlers, the
  progress effect and the two disabled attributes of the \<^verbatim>\<open>FileStorageApp\<close>
  component.  A JavaScript \<^verbatim>\<open>bigint\<close> is an \<^typ>\<open>int\<close>, a \<^verbatim>\<open>Uint8Array\<close> is a list of
  bytes, and a \<^verbatim>\<open>number\<close> that holds a progress value is the rational value of a
  double, with the double arithmetic of the source written out below.
\<close>

type_synonym bytes = "8 word list"

record FileMetadata =
  fm_id :: int
  fm_name :: string
  fm_size :: int

text \<open>A thrown or rejected value: an \<^verbatim>\<open>Error\<close> instance with its message, or any
  other value, kept as the text it prints as (the source tests
  \<^verbatim>\<open>error instanceof Error\<close>).\<close>

datatype thrown = JsError string | NonError string

text \<open>Modelled from the spec: the actor interface of \<^verbatim>\<open>../backend\<close>, whose declaration
  is not part of the sources at hand.  Each field gives what the promise returned by the
  remote operation settles to: \<open>Inl\<close> a rejection, \<open>Inr\<close> the resolved value.  The value
  that \<^verbatim>\<open>addFile\<close> resolves to is never read by the client.\<close>

record actor =
  getFiles :: "thrown + FileMetadata list"
  addFile :: "string \<Rightarrow> int \<Rightarrow> thrown + unit"
  getFileContent :: "int \<Rightarrow> thrown + (string \<times> bytes) option"

text \<open>The object \<^verbatim>\<open>{ name, content }\<close> that the content mutation resolves to.\<close>

record retrieved =
  r_name :: string
  r_content :: bytes

text \<open>The browser's \<^verbatim>\<open>File\<close>: its size is a non-negative integer number.\<close>

record File =
  file_name :: string
  file_size :: nat

text \<open>Notifications.  The description \<open>SizeKB n\<close> stands for the text
  \<^verbatim>\<open>Size: ${(n / 1024).toFixed(2)} KB\<close>, whose decimal formatting is kept symbolic.\<close>

datatype description = NoDescription | Description string | SizeKB nat

datatype toast = ToastSuccess string description | ToastError string description

datatype remote_call = GetFilesCall | AddFileCall string int | GetFileContentCall int

text \<open>The observable effects, in the order in which the code performs them.\<close>

datatype effect =
    Remote remote_call
  | Notify toast
  | ConsoleError string thrown
  | InvalidateFiles
  | AddFileResolved
  | AddFileRejected thrown
  | SetIsUploading bool
  | SetUploadProgress rat
  | SetTimeout nat
  | SetInterval nat
  | ClearInterval
  | SaveAs string bytes

datatype mstatus = MIdle | MPending | MSuccess | MError

text \<open>A mutation that has not settled.  \<^verbatim>\<open>mutate\<close> only creates it, with the
  \<^verbatim>\<open>mutationFn\<close> of the current render (that is, with its actor) and the variables; the
  mutation library calls \<^verbatim>\<open>mutationFn\<close> later, and from then on the promise awaits the
  value that the actor settles it to.\<close>

datatype ('v, 'r) promise = Starting "actor option" 'v | Awaiting "thrown + 'r"

text \<open>
  The state of one mounted application: the React state of the component, the result of
  \<^verbatim>\<open>useActor\<close> (taken as an input, the hook is not part of the sources at hand), the
  query cache entry of key \<^verbatim>\<open>['files']\<close>, the two mutation observers, the timers, the
  file picker of the hidden input and the trace of effects.

  A mutation in flight is stored with a flag telling whether the mutation observer of the
  component still follows it: calling \<^verbatim>\<open>mutate\<close> again or unmounting detaches the observer,
  and the callbacks given to \<^verbatim>\<open>mutate\<close> run only for a followed mutation.  A fetch of the
  files query in flight is stored with the actor of its \<^verbatim>\<open>queryFn\<close>, the number of
  attempts that have failed and the value that the running attempt settles to.

  The run-time contract of the libraries is part of the model.  An event handler runs to
  completion.  The render that a state change causes, with the cleanup and the effect of
  a changed dependency, is an event of its own and comes later: timers and promises can
  fire in between.  \<open>renderedDeps\<close> holds the dependencies of the effect at the last
  render.  The \<^verbatim>\<open>onSuccess\<close> of the hook runs before the callbacks given to \<^verbatim>\<open>mutate\<close>; a
  mutation is attempted once, a rejected fetch of a query is repeated three times; a
  cleared timer does not fire.

  \<open>interval\<close> is the closure variable \<^verbatim>\<open>currentProgress\<close> of the running
  \<^verbatim>\<open>setInterval\<close> timer, \<open>None\<close> when no interval is registered.  \<open>timeouts\<close> holds the
  delays of the \<^verbatim>\<open>setTimeout\<close> callbacks of the upload handler that have not fired yet.
\<close>

record app =
  fileToDelete :: "int option"
  uploadProgress :: rat
  isUploading :: bool
  actor :: "actor option"
  actorFetching :: bool
  filesData :: "FileMetadata list option"
  filesInvalidated :: bool
  filesFetch :: "(actor option \<times> nat \<times> (thrown + FileMetadata list)) option"
  addFileStatus :: mstatus
  addFileInflight :: "(bool \<times> (string \<times> int, unit) promise) list"
  getContentStatus :: mstatus
  getContentInflight :: "(bool \<times> (int, retrieved) promise) list"
  renderedDeps :: "bool \<times> bool"
  interval :: "rat option"
  timeouts :: "nat list"
  pickerOpen :: bool
  mounted :: bool
  trace :: "effect list"

definition initial :: app where
  "initial = \<lparr> fileToDelete = None, uploadProgress = 0, isUploading = False,
     actor = None, actorFetching = False,
     filesData = None, filesInvalidated = False, filesFetch = None,
     addFileStatus = MIdle, addFileInflight = [],
     getContentStatus = MIdle, getContentInflight = [],
     renderedDeps = (False, False),
     interval = None, timeouts = [], pickerOpen = False, mounted = True, trace = [] \<rparr>"

section \<open>Double arithmetic\<close>

text \<open>
  The numbers of the progress animation are binary64 values.  A double is modelled by the
  rational it denotes, and an operation by the exact operation followed by \<open>rnd\<close>, the
  rounding to the nearest double, ties to the even significand.  \<open>ilog2 a\<close> is the
  exponent \<open>e\<close> with \<open>2 ^ e \<le> a < 2 ^ (e + 1)\<close>, and the doubles of that binade are the
  multiples of \<open>2 ^ (e - 52)\<close>.  Overflow and subnormal numbers are not modelled: the
  values of this program lie between 0 and 100.
\<close>

fun bits :: "nat \<Rightarrow> nat" where
  "bits n = (if n = 0 then 0 else Suc (bits (n div 2)))"

declare bits.simps [simp del]

definition pow2 :: "int \<Rightarrow> rat" where
  "pow2 e = (if 0 \<le> e then 2 ^ nat e else 1 / 2 ^ nat (- e))"

definition ilog2 :: "rat \<Rightarrow> int" where
  "ilog2 a =
     (if 1 \<le> a then int (bits (nat \<lfloor>a\<rfloor>)) - 1
      else - int (bits (nat \<lceil>1 / a\<rceil> - 1)))"

definition rnd :: "rat \<Rightarrow> rat" where
  "rnd x =
     (if x = 0 then 0
      else
        let a = \<bar>x\<bar>;
            ulp = pow2 (ilog2 a - 52);
            q = a / ulp;
            n = \<lfloor>q\<rfloor>;
            r = q - of_int n;
            m = (if r < 1 / 2 then n
                 else if 1 / 2 < r then n + 1
                 else if even n then n else n + 1)
        in sgn x * of_int m * ulp)"

definition fl_add :: "rat \<Rightarrow> rat \<Rightarrow> rat" where
  "fl_add a b = rnd (a + b)"

definition fl_div :: "rat \<Rightarrow> rat \<Rightarrow> rat" where
  "fl_div a b = rnd (a / b)"

section \<open>Primitive actions\<close>

definition emit :: "effect \<Rightarrow> app \<Rightarrow> app" where
  "emit e s = s\<lparr>trace := trace s @ [e]\<rparr>"

definition setIsUploading :: "bool \<Rightarrow> app \<Rightarrow> app" where
  "setIsUploading b s = emit (SetIsUploading b) (s\<lparr>isUploading := b\<rparr>)"

definition setUploadProgress :: "rat \<Rightarrow> app \<Rightarrow> app" where
  "setUploadProgress p s = emit (SetUploadProgress p) (s\<lparr>uploadProgress := p\<rparr>)"

definition setFileToDelete :: "int option \<Rightarrow> app \<Rightarrow> app" where
  "setFileToDelete d s = s\<lparr>fileToDelete := d\<rparr>"

definition toast_success :: "string \<Rightarrow> description \<Rightarrow> app \<Rightarrow> app" where
  "toast_success m d s = emit (Notify (ToastSuccess m d)) s"

definition toast_error :: "string \<Rightarrow> description \<Rightarrow> app \<Rightarrow> app" where
  "toast_error m d s = emit (Notify (ToastError m d)) s"

definition console_error :: "string \<Rightarrow> thrown \<Rightarrow> app \<Rightarrow> app" where
  "console_error m e s = emit (ConsoleError m e) s"

definition setTimeout :: "nat \<Rightarrow> app \<Rightarrow> app" where
  "setTimeout d s = emit (SetTimeout d) (s\<lparr>timeouts := timeouts s @ [d]\<rparr>)"

definition detach :: "(bool \<times> 'a) list \<Rightarrow> (bool \<times> 'a) list" where
  "detach ps = map (\<lambda>p. (False, snd p)) ps"

definition remove_nth :: "nat \<Rightarrow> 'a list \<Rightarrow> 'a list" where
  "remove_nth i xs = take i xs @ drop (Suc i) xs"

section \<open>hooks/useQueries.ts\<close>

subsection \<open>useGetFiles\<close>

text \<open>\<^verbatim>\<open>queryFn\<close>: the remote calls it makes and what it settles to.\<close>

definition useGetFiles_queryFn :: "actor option \<Rightarrow> remote_call list \<times> (thrown + FileMetadata list)" where
  "useGetFiles_queryFn a =
     (case a of None \<Rightarrow> ([], Inr [])
      | Some act \<Rightarrow> ([GetFilesCall], getFiles act))"

text \<open>\<^verbatim>\<open>enabled: !!actor && !isFetching\<close>\<close>

definition useGetFiles_enabled :: "actor option \<Rightarrow> bool \<Rightarrow> bool" where
  "useGetFiles_enabled a isFetching = (a \<noteq> None \<and> \<not> isFetching)"

text \<open>The query client.  A fetch of the files query runs \<^verbatim>\<open>queryFn\<close> at once.
  Invalidating the query marks it, and for an enabled query with a mounted consumer it
  starts a fetch, which replaces a fetch in flight; only while the query has no data yet
  is the fetch in flight kept and no new call made.\<close>

definition fetchFiles :: "app \<Rightarrow> app" where
  "fetchFiles s =
     (let (calls, res) = useGetFiles_queryFn (actor s)
      in s\<lparr>filesFetch := Some (actor s, 0, res), trace := trace s @ map Remote calls\<rparr>)"

definition invalidateQueries :: "app \<Rightarrow> app" where
  "invalidateQueries s =
     (let s1 = emit InvalidateFiles (s\<lparr>filesInvalidated := True\<rparr>)
      in if mounted s1 \<and> useGetFiles_enabled (actor s1) (actorFetching s1)
            \<and> (filesFetch s1 = None \<or> filesData s1 \<noteq> None)
         then fetchFiles s1 else s1)"

text \<open>The component reads \<^verbatim>\<open>data: files = []\<close>.\<close>

definition files :: "app \<Rightarrow> FileMetadata list" where
  "files s = (case filesData s of None \<Rightarrow> [] | Some fs \<Rightarrow> fs)"

subsection \<open>useAddFile\<close>

definition useAddFile_mutationFn :: "actor option \<Rightarrow> string \<Rightarrow> int \<Rightarrow> remote_call list \<times> (thrown + unit)" where
  "useAddFile_mutationFn a name sz =
     (case a of None \<Rightarrow> ([], Inl (JsError ''Actor not initialized''))
      | Some act \<Rightarrow> ([AddFileCall name sz], addFile act name sz))"

definition useAddFile_onSuccess :: "app \<Rightarrow> app" where
  "useAddFile_onSuccess s = invalidateQueries s"

subsection \<open>useGetFileContent\<close>

definition useGetFileContent_mutationFn :: "actor option \<Rightarrow> int \<Rightarrow> remote_call list \<times> (thrown + retrieved)" where
  "useGetFileContent_mutationFn a fileId =
     (case a of None \<Rightarrow> ([], Inl (JsError ''Actor not initialized''))
      | Some act \<Rightarrow>
          ([GetFileContentCall fileId],
           case getFileContent act fileId of
             Inl e \<Rightarrow> Inl e
           | Inr None \<Rightarrow> Inl (JsError ''File not found'')
           | Inr (Some result) \<Rightarrow> Inr \<lparr>r_name = fst result, r_content = snd result\<rparr>))"

section \<open>The component FileStorageApp\<close>

subsection \<open>Upload\<close>

text \<open>\<^verbatim>\<open>addFileMutation.mutate(variables, { onSuccess, onError })\<close>: the observer leaves the
  mutation it followed and follows a new, pending one, created with the \<^verbatim>\<open>mutationFn\<close> of
  the current render.\<close>

definition addFile_mutate :: "string \<Rightarrow> int \<Rightarrow> app \<Rightarrow> app" where
  "addFile_mutate name sz s =
     s\<lparr>addFileStatus := MPending,
       addFileInflight := detach (addFileInflight s) @ [(True, Starting (actor s) (name, sz))]\<rparr>"

text \<open>The mutation library calls the \<^verbatim>\<open>mutationFn\<close> of the \<open>i\<close>-th mutation in flight.\<close>

definition addFile_start :: "nat \<Rightarrow> app \<Rightarrow> app" where
  "addFile_start i s =
     (if i < length (addFileInflight s) then
        (case addFileInflight s ! i of
           (followed, Starting a (name, sz)) \<Rightarrow>
             let (calls, res) = useAddFile_mutationFn a name sz
             in s\<lparr>addFileInflight := (addFileInflight s)[i := (followed, Awaiting res)],
                  trace := trace s @ map Remote calls\<rparr>
         | (followed, Awaiting res) \<Rightarrow> s)
      else s)"

text \<open>The callback given to \<^verbatim>\<open>setTimeout(..., 500)\<close>.\<close>

definition settle_reset :: "app \<Rightarrow> app" where
  "settle_reset s =
     (let s1 = setIsUploading False s;
          s2 = setUploadProgress 0 s1
      in s2)"

text \<open>The callbacks that \<^verbatim>\<open>handleFileSelect\<close> gives to \<^verbatim>\<open>mutate\<close>.\<close>

definition select_onSuccess :: "app \<Rightarrow> app" where
  "select_onSuccess s =
     (let s1 = setUploadProgress 100 s;
          s2 = toast_success ''File uploaded successfully!'' NoDescription s1;
          s3 = setTimeout 500 s2
      in s3)"

definition select_onError :: "thrown \<Rightarrow> app \<Rightarrow> app" where
  "select_onError error s =
     (let s1 = toast_error ''Failed to upload file'' NoDescription s;
          s2 = console_error ''Upload error:'' error s1;
          s3 = setIsUploading False s2;
          s4 = setUploadProgress 0 s3
      in s4)"

text \<open>\<^verbatim>\<open>handleFileSelect\<close>, with \<^verbatim>\<open>event.target.files?.[0]\<close> as an option;
  \<^verbatim>\<open>BigInt(file.size)\<close> is exact on the integer size of a \<^verbatim>\<open>File\<close>.\<close>

definition handleFileSelect :: "File option \<Rightarrow> app \<Rightarrow> app" where
  "handleFileSelect selected s =
     (case selected of
        None \<Rightarrow> s
      | Some f \<Rightarrow>
          let s1 = setIsUploading True s;
              s2 = setUploadProgress 0 s1;
              s3 = toast_success (''Selected: '' @ file_name f) (SizeKB (file_size f)) s2;
              s4 = addFile_mutate (file_name f) (int (file_size f)) s3
          in s4)"

text \<open>The promise of the \<open>i\<close>-th add-file mutation in flight settles: the hook's own
  \<^verbatim>\<open>onSuccess\<close> runs first, then, for the mutation that the observer follows, the
  callback given to \<^verbatim>\<open>mutate\<close>.\<close>

definition addFile_settle :: "nat \<Rightarrow> app \<Rightarrow> app" where
  "addFile_settle i s =
     (if i < length (addFileInflight s) then
        (case addFileInflight s ! i of
           (followed, Starting a v) \<Rightarrow> s
         | (followed, Awaiting res) \<Rightarrow>
             let s1 = s\<lparr>addFileInflight := remove_nth i (addFileInflight s)\<rparr>
             in case res of
                  Inr _ \<Rightarrow>
                    let s2 = useAddFile_onSuccess (emit AddFileResolved s1)
                    in if followed then select_onSuccess (s2\<lparr>addFileStatus := MSuccess\<rparr>) else s2
                | Inl error \<Rightarrow>
                    let s2 = emit (AddFileRejected error) s1
                    in if followed then select_onError error (s2\<lparr>addFileStatus := MError\<rparr>) else s2)
      else s)"

text \<open>\<^verbatim>\<open>handleUploadClick\<close> clicks the hidden file input, which opens the file picker.\<close>

definition handleUploadClick :: "app \<Rightarrow> app" where
  "handleUploadClick s = s\<lparr>pickerOpen := True\<rparr>"

text \<open>\<^verbatim>\<open>disabled={isUploading}\<close> on the upload button.\<close>

definition upload_button_disabled :: "app \<Rightarrow> bool" where
  "upload_button_disabled s = isUploading s"

subsection \<open>The progress animation\<close>

definition duration :: nat where
  "duration = 1500"

definition intervalTime :: nat where
  "intervalTime = 30"

definition steps :: rat where
  "steps = fl_div (of_nat duration) (of_nat intervalTime)"

definition increment :: rat where
  "increment = fl_div 95 steps"

text \<open>The callback of \<^verbatim>\<open>setInterval\<close>.\<close>

definition progress_tick :: "app \<Rightarrow> app" where
  "progress_tick s =
     (case interval s of
        None \<Rightarrow> s
      | Some currentProgress \<Rightarrow>
          let cp = fl_add currentProgress increment
          in if cp \<ge> 95
             then emit ClearInterval ((setUploadProgress 95 s)\<lparr>interval := None\<rparr>)
             else setUploadProgress cp (s\<lparr>interval := Some cp\<rparr>))"

text \<open>The closure variable after \<open>k\<close> callbacks of an interval that is still running.\<close>

fun ramp :: "nat \<Rightarrow> rat" where
  "ramp 0 = 0"
| "ramp (Suc k) = fl_add (ramp k) increment"

text \<open>The body of the effect and the cleanup it returns.  Clearing a timer that has
  already cleared itself is not observable and leaves no entry in the trace.\<close>

definition progress_effect :: "app \<Rightarrow> app" where
  "progress_effect s =
     (if isUploading s \<and> addFileStatus s = MPending
      then emit (SetInterval intervalTime) (s\<lparr>interval := Some 0\<rparr>)
      else s)"

definition progress_cleanup :: "app \<Rightarrow> app" where
  "progress_cleanup s =
     (case interval s of
        None \<Rightarrow> s
      | Some _ \<Rightarrow> emit ClearInterval (s\<lparr>interval := None\<rparr>))"

text \<open>The dependency array \<^verbatim>\<open>[isUploading, addFileMutation.isPending]\<close>.  At a render,
  when a dependency differs from the previous render, the cleanup of the previous effect
  runs, then the effect.\<close>

definition effect_deps :: "app \<Rightarrow> bool \<times> bool" where
  "effect_deps s = (isUploading s, addFileStatus s = MPending)"

definition render :: "app \<Rightarrow> app" where
  "render s =
     (if effect_deps s \<noteq> renderedDeps s
      then (progress_effect (progress_cleanup s))\<lparr>renderedDeps := effect_deps s\<rparr>
      else s)"

text \<open>Unmounting runs the cleanup, detaches both mutation observers and removes the
  file input.\<close>

definition unmount :: "app \<Rightarrow> app" where
  "unmount s =
     (progress_cleanup s)\<lparr>mounted := False, pickerOpen := False,
        addFileInflight := detach (addFileInflight s),
        getContentInflight := detach (getContentInflight s)\<rparr>"

subsection \<open>Download\<close>

text \<open>\<^verbatim>\<open>handleDownload\<close> up to its \<^verbatim>\<open>await\<close>: \<^verbatim>\<open>mutateAsync(fileId)\<close>.\<close>

definition handleDownload_call :: "int \<Rightarrow> string \<Rightarrow> app \<Rightarrow> app" where
  "handleDownload_call fileId fileName s =
     s\<lparr>getContentStatus := MPending,
       getContentInflight := detach (getContentInflight s) @ [(True, Starting (actor s) fileId)]\<rparr>"

text \<open>The mutation library calls the \<^verbatim>\<open>mutationFn\<close> of the \<open>j\<close>-th content mutation in
  flight.\<close>

definition getContent_start :: "nat \<Rightarrow> app \<Rightarrow> app" where
  "getContent_start j s =
     (if j < length (getContentInflight s) then
        (case getContentInflight s ! j of
           (followed, Starting a fileId) \<Rightarrow>
             let (calls, res) = useGetFileContent_mutationFn a fileId
             in s\<lparr>getContentInflight := (getContentInflight s)[j := (followed, Awaiting res)],
                  trace := trace s @ map Remote calls\<rparr>
         | (followed, Awaiting res) \<Rightarrow> s)
      else s)"

text \<open>\<^verbatim>\<open>handleDownload\<close> after its \<^verbatim>\<open>await\<close>: the rest of the \<^verbatim>\<open>try\<close> block when the
  promise resolved, the \<^verbatim>\<open>catch\<close> block when it rejected.  \<open>SaveAs\<close> is the click on the
  temporary anchor whose \<^verbatim>\<open>download\<close> attribute is the given name and whose target is
  the blob of the given bytes.\<close>

definition handleDownload_resume :: "thrown + retrieved \<Rightarrow> app \<Rightarrow> app" where
  "handleDownload_resume res s =
     (case res of
        Inr result \<Rightarrow>
          let s1 = emit (SaveAs (r_name result) (r_content result)) s;
              s2 = toast_success ''Download started!''
                     (Description (''Downloading '' @ r_name result)) s1
          in s2
      | Inl error \<Rightarrow>
          let s1 = toast_error ''Failed to download file''
                     (Description (case error of JsError message \<Rightarrow> message
                                   | NonError _ \<Rightarrow> ''Unknown error'')) s;
              s2 = console_error ''Download error:'' error s1
          in s2)"

definition getContent_settle :: "nat \<Rightarrow> app \<Rightarrow> app" where
  "getContent_settle j s =
     (if j < length (getContentInflight s) then
        (case getContentInflight s ! j of
           (followed, Starting a v) \<Rightarrow> s
         | (followed, Awaiting res) \<Rightarrow>
             let s1 = s\<lparr>getContentInflight := remove_nth j (getContentInflight s)\<rparr>;
                 s2 = (if followed
                       then s1\<lparr>getContentStatus := (case res of Inr _ \<Rightarrow> MSuccess | Inl _ \<Rightarrow> MError)\<rparr>
                       else s1)
             in handleDownload_resume res s2)
      else s)"

text \<open>One whole run of \<^verbatim>\<open>handleDownload\<close>: the call, then the start and the settling
  of its own mutation, the last one in flight.\<close>

definition handleDownload :: "int \<Rightarrow> string \<Rightarrow> app \<Rightarrow> app" where
  "handleDownload fileId fileName s =
     (let s1 = handleDownload_call fileId fileName s;
          j = length (getContentInflight s1) - 1;
          s2 = getContent_start j s1
      in getContent_settle j s2)"

text \<open>\<^verbatim>\<open>disabled={getFileContentMutation.isPending}\<close> on every download button.\<close>

definition download_button_disabled :: "app \<Rightarrow> bool" where
  "download_button_disabled s = (getContentStatus s = MPending)"

subsection \<open>Deletion\<close>

definition handleDeleteClick :: "int \<Rightarrow> app \<Rightarrow> app" where
  "handleDeleteClick fileId s = setFileToDelete (Some fileId) s"

definition handleConfirmDelete :: "app \<Rightarrow> app" where
  "handleConfirmDelete s =
     (if fileToDelete s \<noteq> None
      then let s1 = toast_error ''Delete functionality not yet implemented in backend''
                      NoDescription s;
               s2 = setFileToDelete None s1
           in s2
      else s)"

definition handleCancelDelete :: "app \<Rightarrow> app" where
  "handleCancelDelete s = setFileToDelete None s"

section \<open>Sessions\<close>

text \<open>The query observer: when the query of a mounted component turns from disabled to
  enabled it fetches, its data being stale from the start, unless a fetch is in flight.\<close>

definition query_sync :: "bool \<Rightarrow> app \<Rightarrow> app" where
  "query_sync wasEnabled s =
     (if mounted s \<and> \<not> wasEnabled \<and> useGetFiles_enabled (actor s) (actorFetching s)
         \<and> filesFetch s = None
      then fetchFiles s else s)"

definition actor_change :: "actor option \<Rightarrow> bool \<Rightarrow> app \<Rightarrow> app" where
  "actor_change a fetching s =
     query_sync (useGetFiles_enabled (actor s) (actorFetching s))
       (s\<lparr>actor := a, actorFetching := fetching\<rparr>)"

text \<open>An attempt of the fetch in flight settles.  A resolved list replaces the cached
  data wholesale.  After a rejection the \<^verbatim>\<open>queryFn\<close> of the fetch is called again, up to
  three times; the rejection of the last attempt ends the fetch and leaves the data.\<close>

definition files_settle :: "app \<Rightarrow> app" where
  "files_settle s =
     (case filesFetch s of
        None \<Rightarrow> s
      | Some (a, failures, Inr fs) \<Rightarrow>
          s\<lparr>filesData := Some fs, filesInvalidated := False, filesFetch := None\<rparr>
      | Some (a, failures, Inl _) \<Rightarrow>
          if failures < 3
          then let (calls, res) = useGetFiles_queryFn a
               in s\<lparr>filesFetch := Some (a, Suc failures, res),
                    trace := trace s @ map Remote calls\<rparr>
          else s\<lparr>filesFetch := None\<rparr>)"

definition timeout_fire :: "app \<Rightarrow> app" where
  "timeout_fire s =
     (case timeouts s of
        [] \<Rightarrow> s
      | _ # rest \<Rightarrow> settle_reset (s\<lparr>timeouts := rest\<rparr>))"

text \<open>What can happen to the application: changes of the actor, mutations starting,
  promises settling, timers firing, renders, and the user acting on the controls.\<close>

datatype event =
    ActorUpdate "actor option" bool
  | FilesSettle
  | ClickUpload
  | FileChange "File option"
  | AddFileStart nat
  | AddFileSettle nat
  | Tick
  | TimeoutFire
  | ClickDownload int string
  | GetContentStart nat
  | GetContentSettle nat
  | ClickDelete int
  | ConfirmDelete
  | CancelDelete
  | Render
  | Unmount

fun starting :: "bool \<times> ('v, 'r) promise \<Rightarrow> bool" where
  "starting (followed, Starting a v) = True"
| "starting (followed, Awaiting res) = False"

text \<open>An event is possible when its source exists: a disabled button takes no click,
  the change event comes from the open picker, a download or delete button belongs to a
  listed file, the dialog buttons exist while the dialog is open, a timer fires while it
  is registered, a mutation starts once and its promise settles after that, and a mounted
  component renders.\<close>

fun possible :: "app \<Rightarrow> event \<Rightarrow> bool" where
  "possible s (ActorUpdate a fetching) = True"
| "possible s FilesSettle = (filesFetch s \<noteq> None)"
| "possible s ClickUpload = (mounted s \<and> \<not> upload_button_disabled s)"
| "possible s (FileChange selected) = (mounted s \<and> pickerOpen s)"
| "possible s (AddFileStart i) =
     (i < length (addFileInflight s) \<and> starting (addFileInflight s ! i))"
| "possible s (AddFileSettle i) =
     (i < length (addFileInflight s) \<and> \<not> starting (addFileInflight s ! i))"
| "possible s Tick = (interval s \<noteq> None)"
| "possible s TimeoutFire = (timeouts s \<noteq> [])"
| "possible s (ClickDownload fileId fileName) =
     (mounted s \<and> \<not> download_button_disabled s
      \<and> (fileId, fileName) \<in> set (map (\<lambda>f. (fm_id f, fm_name f)) (files s)))"
| "possible s (GetContentStart j) =
     (j < length (getContentInflight s) \<and> starting (getContentInflight s ! j))"
| "possible s (GetContentSettle j) =
     (j < length (getContentInflight s) \<and> \<not> starting (getContentInflight s ! j))"
| "possible s (ClickDelete fileId) = (mounted s \<and> fileId \<in> set (map fm_id (files s)))"
| "possible s ConfirmDelete = (mounted s \<and> fileToDelete s \<noteq> None)"
| "possible s CancelDelete = (mounted s \<and> fileToDelete s \<noteq> None)"
| "possible s Render = mounted s"
| "possible s Unmount = mounted s"

fun handle :: "event \<Rightarrow> app \<Rightarrow> app" where
  "handle (ActorUpdate a fetching) s = actor_change a fetching s"
| "handle FilesSettle s = files_settle s"
| "handle ClickUpload s = handleUploadClick s"
| "handle (FileChange selected) s = (handleFileSelect selected s)\<lparr>pickerOpen := False\<rparr>"
| "handle (AddFileStart i) s = addFile_start i s"
| "handle (AddFileSettle i) s = addFile_settle i s"
| "handle Tick s = progress_tick s"
| "handle TimeoutFire s = timeout_fire s"
| "handle (ClickDownload fileId fileName) s = handleDownload_call fileId fileName s"
| "handle (GetContentStart j) s = getContent_start j s"
| "handle (GetContentSettle j) s = getContent_settle j s"
| "handle (ClickDelete fileId) s = handleDeleteClick fileId s"
| "handle ConfirmDelete s = handleConfirmDelete s"
| "handle CancelDelete s = handleCancelDelete s"
| "handle Render s = render s"
| "handle Unmount s = unmount s"

definition step :: "app \<Rightarrow> event \<Rightarrow> app" where
  "step s e = handle e s"

fun run :: "app \<Rightarrow> event list \<Rightarrow> app option" where
  "run s [] = Some s"
| "run s (e # es) = (if possible s e then run (step s e) es else None)"

section \<open>Invariants and sample data\<close>

text \<open>The invariant of the upload session: at most one mutation and one reset timer are
  outstanding, both only while the uploading flag is set, and the picker is open only
  while the flag is clear.\<close>

definition upload_inv :: "app \<Rightarrow> bool" where
  "upload_inv s =
     (length (addFileInflight s) \<le> 1
      \<and> length (timeouts s) \<le> 1
      \<and> (addFileInflight s \<noteq> [] \<longrightarrow> isUploading s \<and> timeouts s = [])
      \<and> (timeouts s \<noteq> [] \<longrightarrow> isUploading s)
      \<and> (pickerOpen s \<longrightarrow> mounted s \<and> \<not> isUploading s))"


text \<open>Two states agree on the fields that the upload session reads and writes.\<close>

definition same_upload :: "app \<Rightarrow> app \<Rightarrow> bool" where
  "same_upload s t =
     (isUploading t = isUploading s \<and> uploadProgress t = uploadProgress s
      \<and> addFileStatus t = addFileStatus s \<and> addFileInflight t = addFileInflight s
      \<and> timeouts t = timeouts s \<and> pickerOpen t = pickerOpen s
      \<and> mounted t = mounted s \<and> interval t = interval s
      \<and> renderedDeps t = renderedDeps s)"

text \<open>Full progress is shown only next to a successfully settled mutation.\<close>

definition progress_ok :: "app \<Rightarrow> bool" where
  "progress_ok s = (uploadProgress s \<noteq> 100 \<or> addFileStatus s = MSuccess)"

text \<open>The events that deliver a remote acceptance of an upload.\<close>

definition accepted :: "bool \<times> (string \<times> int, unit) promise \<Rightarrow> bool" where
  "accepted p = (case snd p of Starting a v \<Rightarrow> False | Awaiting res \<Rightarrow> \<not> isl res)"

definition accepts :: "app \<Rightarrow> event \<Rightarrow> bool" where
  "accepts s e =
     (case e of
        AddFileSettle i \<Rightarrow> i < length (addFileInflight s) \<and> accepted (addFileInflight s ! i)
      | _ \<Rightarrow> False)"

text \<open>The closure values of the first fifty callbacks, collected in one pass, and the
  doubles they are.\<close>

fun ramps :: "nat \<Rightarrow> rat \<Rightarrow> rat list" where
  "ramps 0 c = [c]"
| "ramps (Suc n) c = c # ramps n (fl_add c increment)"

definition ramp_table :: "rat list" where
  "ramp_table =
     [
      0, 4278419646001971 / 2251799813685248, 4278419646001971 / 1125899906842624,
      1604407367250739 / 281474976710656, 4278419646001971 / 562949953421312, 19 / 2,
      6417629469002957 / 562949953421312, 3743617190251725 / 281474976710656,
      8556839292003943 / 562949953421312, 2406611050876109 / 140737488355328, 19,
      2941413506626355 / 140737488355328, 1604407367250739 / 70368744177664,
      3476215962376601 / 140737488355328, 935904297562931 / 35184372088832,
      4011018418126847 / 140737488355328, 2139209823000985 / 70368744177664,
      4545820873877093 / 140737488355328, 601652762719027 / 17592186044416,
      5080623329627339 / 140737488355328, 2674012278751231 / 70368744177664,
      5615425785377585 / 140737488355328, 1470706753313177 / 35184372088832,
      6150228241127831 / 140737488355328, 3208814734501477 / 70368744177664,
      6685030696878077 / 140737488355328, 434526995297075 / 8796093022208,
      7219833152628323 / 140737488355328, 3743617190251723 / 70368744177664,
      7754635608378569 / 140737488355328, 2005509209063423 / 35184372088832,
      8289438064128815 / 140737488355328, 4278419646001969 / 70368744177664,
      8824240519879061 / 140737488355328, 1136455218469273 / 17592186044416,
      2339760743907327 / 35184372088832, 601652762719027 / 8796093022208,
      2473461357844889 / 35184372088832, 1270155832406835 / 17592186044416,
      2607161971782451 / 35184372088832, 76, 2740862585720013 / 35184372088832,
      1403856446344397 / 17592186044416, 2874563199657575 / 35184372088832,
      735353376656589 / 8796093022208, 3008263813595137 / 35184372088832,
      1537557060281959 / 17592186044416, 3141964427532699 / 35184372088832,
      401101841812685 / 4398046511104, 3275665041470261 / 35184372088832,
      1671257674219521 / 17592186044416]"

text \<open>Sample actors and states for the concrete runs below.\<close>

definition accepting_actor :: actor where
  "accepting_actor =
     \<lparr>getFiles = Inr [], addFile = (\<lambda>name sz. Inr ()), getFileContent = (\<lambda>fileId. Inr None)\<rparr>"

definition rejecting_actor :: actor where
  "rejecting_actor =
     \<lparr>getFiles = Inr [], addFile = (\<lambda>name sz. Inl (JsError ''quota exceeded'')),
      getFileContent = (\<lambda>fileId. Inr None)\<rparr>"

definition renaming_actor :: actor where
  "renaming_actor =
     \<lparr>getFiles = Inr [\<lparr>fm_id = 7, fm_name = ''old.txt'', fm_size = 3\<rparr>],
      addFile = (\<lambda>name sz. Inr ()),
      getFileContent = (\<lambda>fileId. if fileId = 7 then Inr (Some (''new.txt'', [1, 2, 3])) else Inr None)\<rparr>"

definition throwing_actor :: actor where
  "throwing_actor =
     \<lparr>getFiles = Inr [\<lparr>fm_id = 7, fm_name = ''old.txt'', fm_size = 3\<rparr>],
      addFile = (\<lambda>name sz. Inr ()),
      getFileContent = (\<lambda>fileId. Inl (NonError ''connection reset''))\<rparr>"

definition stocked_actor :: actor where
  "stocked_actor =
     \<lparr>getFiles = Inr [\<lparr>fm_id = 7, fm_name = ''report.pdf'', fm_size = 204800\<rparr>],
      addFile = (\<lambda>name sz. Inr ()), getFileContent = (\<lambda>fileId. Inr None)\<rparr>"

definition renamed_state :: app where
  "renamed_state =
     initial\<lparr>actor := Some renaming_actor,
       filesData := Some [\<lparr>fm_id = 7, fm_name = ''old.txt'', fm_size = 3\<rparr>]\<rparr>"

definition report_pdf :: File where
  "report_pdf = \<lparr>file_name = ''report.pdf'', file_size = 204800\<rparr>"

definition upload_start :: "event list" where
  "upload_start =
     [ActorUpdate (Some accepting_actor) False, FilesSettle, ClickUpload,
      FileChange (Some report_pdf), Render, AddFileStart 0]"

definition uploading_state :: app where
  "uploading_state = foldl step initial upload_start"

definition upload_done :: "event list" where
  "upload_done = upload_start @ [AddFileSettle 0]"

definition uploaded_state :: app where
  "uploaded_state = foldl step initial upload_done"

definition x_bin :: File where
  "x_bin = \<lparr>file_name = ''x.bin'', file_size = 10\<rparr>"

definition upload_rejected :: "event list" where
  "upload_rejected =
     [ActorUpdate (Some rejecting_actor) False, FilesSettle, ClickUpload,
      FileChange (Some x_bin), Render, AddFileStart 0, AddFileSettle 0, Render]"

definition rejected_state :: app where
  "rejected_state = foldl step initial upload_rejected"

definition empty_name :: File where
  "empty_name = \<lparr>file_name = [], file_size = 0\<rparr>"





text \<open>An upload accepted by a remote that answers the refetch with the new list, while
  the cache holds the empty list of the first fetch.\<close>

definition refreshed_late :: "event list" where
  "refreshed_late =
     [ActorUpdate (Some accepting_actor) False, FilesSettle,
      ActorUpdate (Some stocked_actor) False, ClickUpload,
      FileChange (Some report_pdf), Render, AddFileStart 0, AddFileSettle 0]"

definition refreshed_late_state :: app where
  "refreshed_late_state = foldl step initial refreshed_late"


text \<open>An upload accepted while the first fetch of the list is still in flight.\<close>

definition accepted_early :: "event list" where
  "accepted_early =
     [ActorUpdate (Some accepting_actor) False, ClickUpload,
      FileChange (Some report_pdf), Render, AddFileStart 0, AddFileSettle 0]"

definition accepted_early_state :: app where
  "accepted_early_state = foldl step initial accepted_early"
section \<open>Auxiliary facts\<close>

lemmas prims = emit_def setIsUploading_def setUploadProgress_def setFileToDelete_def
  toast_success_def toast_error_def console_error_def setTimeout_def

lemma invalidateQueries_nf:
  "invalidateQueries s =
     (if mounted s \<and> useGetFiles_enabled (actor s) (actorFetching s)
         \<and> (filesFetch s = None \<or> filesData s \<noteq> None)
      then s\<lparr>filesInvalidated := True,
             filesFetch := Some (actor s, 0, snd (useGetFiles_queryFn (actor s))),
             trace := trace s @ InvalidateFiles # map Remote (fst (useGetFiles_queryFn (actor s)))\<rparr>
      else s\<lparr>filesInvalidated := True, trace := trace s @ [InvalidateFiles]\<rparr>)"
  by (auto simp: invalidateQueries_def fetchFiles_def emit_def split_beta Let_def)

lemma invalidateQueries_fields:
  "isUploading (invalidateQueries s) = isUploading s"
  "uploadProgress (invalidateQueries s) = uploadProgress s"
  "addFileStatus (invalidateQueries s) = addFileStatus s"
  "addFileInflight (invalidateQueries s) = addFileInflight s"
  "timeouts (invalidateQueries s) = timeouts s"
  "pickerOpen (invalidateQueries s) = pickerOpen s"
  "mounted (invalidateQueries s) = mounted s"
  "interval (invalidateQueries s) = interval s"
  "renderedDeps (invalidateQueries s) = renderedDeps s"
  "filesData (invalidateQueries s) = filesData s"
  by (simp_all add: invalidateQueries_nf)

lemma select_onSuccess_nf:
  "select_onSuccess s =
     s\<lparr>uploadProgress := 100, timeouts := timeouts s @ [500],
       trace := trace s @ [SetUploadProgress 100,
                 Notify (ToastSuccess ''File uploaded successfully!'' NoDescription),
                 SetTimeout 500]\<rparr>"
  by (simp add: select_onSuccess_def prims)

lemma select_onError_nf:
  "select_onError e s =
     s\<lparr>isUploading := False, uploadProgress := 0,
       trace := trace s @ [Notify (ToastError ''Failed to upload file'' NoDescription),
                 ConsoleError ''Upload error:'' e, SetIsUploading False, SetUploadProgress 0]\<rparr>"
  by (simp add: select_onError_def prims)

lemma settle_reset_nf:
  "settle_reset s =
     s\<lparr>isUploading := False, uploadProgress := 0,
       trace := trace s @ [SetIsUploading False, SetUploadProgress 0]\<rparr>"
  by (simp add: settle_reset_def prims)

lemma handleFileSelect_nf:
  "handleFileSelect (Some f) s =
     s\<lparr>isUploading := True, uploadProgress := 0, addFileStatus := MPending,
       addFileInflight := detach (addFileInflight s) @
         [(True, Starting (actor s) (file_name f, int (file_size f)))],
       trace := trace s @ [SetIsUploading True, SetUploadProgress 0,
                 Notify (ToastSuccess (''Selected: '' @ file_name f) (SizeKB (file_size f)))]\<rparr>"
  by (simp add: handleFileSelect_def addFile_mutate_def prims)

lemma addFile_start_nf:
  "i < length (addFileInflight s) \<Longrightarrow> addFileInflight s ! i = (followed, Starting a (name, sz)) \<Longrightarrow>
   addFile_start i s =
     s\<lparr>addFileInflight :=
         (addFileInflight s)[i := (followed, Awaiting (snd (useAddFile_mutationFn a name sz)))],
       trace := trace s @ map Remote (fst (useAddFile_mutationFn a name sz))\<rparr>"
  by (simp add: addFile_start_def split_beta)

lemma addFile_start_idle:
  "\<not> (i < length (addFileInflight s) \<and> starting (addFileInflight s ! i)) \<Longrightarrow> addFile_start i s = s"
  by (cases "addFileInflight s ! i" rule: starting.cases) (auto simp: addFile_start_def)

lemma addFile_settle_resolved:
  "i < length (addFileInflight s) \<Longrightarrow> addFileInflight s ! i = (followed, Awaiting (Inr u)) \<Longrightarrow>
   addFile_settle i s =
     (if followed
      then select_onSuccess
             ((invalidateQueries (emit AddFileResolved
                 (s\<lparr>addFileInflight := remove_nth i (addFileInflight s)\<rparr>)))\<lparr>addFileStatus := MSuccess\<rparr>)
      else invalidateQueries (emit AddFileResolved
             (s\<lparr>addFileInflight := remove_nth i (addFileInflight s)\<rparr>)))"
  by (simp add: addFile_settle_def useAddFile_onSuccess_def Let_def)

lemma addFile_settle_rejected:
  "i < length (addFileInflight s) \<Longrightarrow> addFileInflight s ! i = (followed, Awaiting (Inl e)) \<Longrightarrow>
   addFile_settle i s =
     (if followed
      then select_onError e
             ((emit (AddFileRejected e)
                 (s\<lparr>addFileInflight := remove_nth i (addFileInflight s)\<rparr>))\<lparr>addFileStatus := MError\<rparr>)
      else emit (AddFileRejected e) (s\<lparr>addFileInflight := remove_nth i (addFileInflight s)\<rparr>))"
  by (simp add: addFile_settle_def Let_def)

lemma addFile_settle_idle:
  "\<not> (i < length (addFileInflight s) \<and> \<not> starting (addFileInflight s ! i)) \<Longrightarrow> addFile_settle i s = s"
  by (cases "addFileInflight s ! i" rule: starting.cases) (auto simp: addFile_settle_def)

lemma timeout_fire_nf:
  "timeouts s = d # rest \<Longrightarrow>
   timeout_fire s = s\<lparr>timeouts := rest, isUploading := False, uploadProgress := 0,
       trace := trace s @ [SetIsUploading False, SetUploadProgress 0]\<rparr>"
  by (simp add: timeout_fire_def settle_reset_nf)

lemma timeout_fire_idle: "timeouts s = [] \<Longrightarrow> timeout_fire s = s"
  by (simp add: timeout_fire_def)

lemma render_nf:
  "render s =
     (if effect_deps s \<noteq> renderedDeps s
      then s\<lparr>renderedDeps := effect_deps s,
             interval := (if isUploading s \<and> addFileStatus s = MPending then Some 0 else None),
             trace := trace s @ (case interval s of None \<Rightarrow> [] | Some _ \<Rightarrow> [ClearInterval]) @
                      (if isUploading s \<and> addFileStatus s = MPending
                       then [SetInterval intervalTime] else [])\<rparr>
      else s)"
  by (cases "interval s"; simp add: render_def progress_effect_def progress_cleanup_def emit_def)

lemma unmount_fields:
  "isUploading (unmount s) = isUploading s"
  "uploadProgress (unmount s) = uploadProgress s"
  "addFileStatus (unmount s) = addFileStatus s"
  "addFileInflight (unmount s) = detach (addFileInflight s)"
  "timeouts (unmount s) = timeouts s"
  "pickerOpen (unmount s) = False"
  "mounted (unmount s) = False"
  "interval (unmount s) = None"
  "renderedDeps (unmount s) = renderedDeps s"
  by (simp_all add: unmount_def progress_cleanup_def emit_def split: option.splits)

lemma progress_tick_fields:
  "isUploading (progress_tick s) = isUploading s"
  "addFileStatus (progress_tick s) = addFileStatus s"
  "addFileInflight (progress_tick s) = addFileInflight s"
  "timeouts (progress_tick s) = timeouts s"
  "pickerOpen (progress_tick s) = pickerOpen s"
  "mounted (progress_tick s) = mounted s"
  "renderedDeps (progress_tick s) = renderedDeps s"
  by (simp_all add: progress_tick_def prims Let_def split: option.splits)

lemma progress_tick_interval:
  "interval (progress_tick s) =
     (case interval s of None \<Rightarrow> None
      | Some cp \<Rightarrow> if fl_add cp increment \<ge> 95 then None else Some (fl_add cp increment))"
  by (simp add: progress_tick_def prims Let_def split: option.splits)

lemma progress_tick_progress:
  "uploadProgress (progress_tick s) =
     (case interval s of None \<Rightarrow> uploadProgress s
      | Some cp \<Rightarrow> if fl_add cp increment \<ge> 95 then 95 else fl_add cp increment)"
  by (simp add: progress_tick_def prims Let_def split: option.splits)

lemma addFile_start_fields:
  "isUploading (addFile_start i s) = isUploading s"
  "uploadProgress (addFile_start i s) = uploadProgress s"
  "addFileStatus (addFile_start i s) = addFileStatus s"
  "timeouts (addFile_start i s) = timeouts s"
  "pickerOpen (addFile_start i s) = pickerOpen s"
  "mounted (addFile_start i s) = mounted s"
  "interval (addFile_start i s) = interval s"
  "renderedDeps (addFile_start i s) = renderedDeps s"
  "length (addFileInflight (addFile_start i s)) = length (addFileInflight s)"
  by (simp_all add: addFile_start_def split_beta split: promise.splits)

lemma awaiting_entry:
  assumes "\<not> starting p"
  obtains followed res where "p = (followed, Awaiting res)"
  using assms by (cases p rule: starting.cases) auto

lemma addFile_settle_fields:
  assumes "i < length (addFileInflight s)" and "addFileInflight s ! i = (followed, Awaiting res)"
  shows "isUploading (addFile_settle i s) = (if followed \<and> isl res then False else isUploading s)"
    and "timeouts (addFile_settle i s) =
           (if followed \<and> \<not> isl res then timeouts s @ [500] else timeouts s)"
    and "addFileInflight (addFile_settle i s) = remove_nth i (addFileInflight s)"
    and "addFileStatus (addFile_settle i s) =
           (if followed then (if isl res then MError else MSuccess) else addFileStatus s)"
    and "uploadProgress (addFile_settle i s) =
           (if followed then (if isl res then 0 else 100) else uploadProgress s)"
    and "pickerOpen (addFile_settle i s) = pickerOpen s"
    and "mounted (addFile_settle i s) = mounted s"
    and "interval (addFile_settle i s) = interval s"
    and "renderedDeps (addFile_settle i s) = renderedDeps s"
    and "filesData (addFile_settle i s) = filesData s"
  using assms
  by (cases res;
      simp add: addFile_settle_def useAddFile_onSuccess_def invalidateQueries_fields
        select_onSuccess_nf select_onError_nf emit_def Let_def)+

lemma length_le1_nth0: "length xs \<le> Suc 0 \<Longrightarrow> i < length xs \<Longrightarrow> i = 0 \<and> xs = [xs ! 0]"
  by (cases xs) auto

lemma same_upload_handle:
  "same_upload s (handle (ActorUpdate a fetching) s)"
  "same_upload s (handle FilesSettle s)"
  "same_upload s (handle (ClickDownload fileId fileName) s)"
  "same_upload s (handle (GetContentStart j) s)"
  "same_upload s (handle (GetContentSettle j) s)"
  "same_upload s (handle (ClickDelete fileId) s)"
  "same_upload s (handle ConfirmDelete s)"
  "same_upload s (handle CancelDelete s)"
  by (simp_all add: same_upload_def actor_change_def query_sync_def fetchFiles_def files_settle_def
        handleDownload_call_def getContent_start_def getContent_settle_def handleDownload_resume_def
        handleDeleteClick_def handleConfirmDelete_def handleCancelDelete_def prims
        split_beta Let_def split: option.splits sum.splits promise.splits)

lemma inv_initial: "upload_inv initial"
  by (simp add: upload_inv_def initial_def)

lemma inv_frame:
  assumes "upload_inv s" "same_upload s (handle e s)"
  shows "upload_inv (step s e)"
  using assms by (simp add: upload_inv_def step_def same_upload_def)

lemma inv_click:
  assumes "upload_inv s" "possible s ClickUpload"
  shows "upload_inv (step s ClickUpload)"
  using assms
  by (auto simp: upload_inv_def step_def handleUploadClick_def upload_button_disabled_def)

lemma inv_change:
  assumes "upload_inv s" "possible s (FileChange selected)"
  shows "upload_inv (step s (FileChange selected))"
proof (cases selected)
  case None
  with assms show ?thesis
    by (auto simp: upload_inv_def step_def handleFileSelect_def)
next
  case (Some f)
  from assms have pre: "mounted s" "\<not> isUploading s" "addFileInflight s = []" "timeouts s = []"
    by (auto simp: upload_inv_def)
  with Some show ?thesis
    by (simp add: upload_inv_def step_def handleFileSelect_nf detach_def)
qed

lemma inv_start:
  assumes "upload_inv s"
  shows "upload_inv (step s (AddFileStart i))"
proof -
  have "length (addFileInflight (addFile_start i s)) = length (addFileInflight s)"
    by (rule addFile_start_fields)
  then have "(addFileInflight (addFile_start i s) = []) = (addFileInflight s = [])"
    by (metis length_0_conv)
  with assms show ?thesis
    by (simp add: upload_inv_def step_def addFile_start_fields)
qed

lemma inv_settle:
  assumes "upload_inv s" "possible s (AddFileSettle i)"
  shows "upload_inv (step s (AddFileSettle i))"
proof -
  from assms have i: "i < length (addFileInflight s)" and le: "length (addFileInflight s) \<le> Suc 0"
    and aw: "\<not> starting (addFileInflight s ! i)"
    by (simp_all add: upload_inv_def)
  from i le have i0: "i = 0" and single: "addFileInflight s = [addFileInflight s ! 0]"
    using length_le1_nth0 by blast+
  from aw obtain followed res where entry: "addFileInflight s ! i = (followed, Awaiting res)"
    by (rule awaiting_entry)
  have rem: "remove_nth i (addFileInflight s) = []"
    using i0 single by (metis append_Nil drop0 drop_Suc_Cons remove_nth_def take0)
  have up: "isUploading s" "timeouts s = []" "\<not> pickerOpen s"
    using assms(1) i by (auto simp: upload_inv_def)
  note f = addFile_settle_fields [OF i entry]
  show ?thesis
    using up rem by (simp add: upload_inv_def step_def f)
qed

lemma inv_tick:
  assumes "upload_inv s"
  shows "upload_inv (step s Tick)"
  using assms by (simp add: upload_inv_def step_def progress_tick_fields)

lemma inv_timeout:
  assumes "upload_inv s" "possible s TimeoutFire"
  shows "upload_inv (step s TimeoutFire)"
proof -
  from assms obtain d where t: "timeouts s = [d]"
    by (cases "timeouts s") (auto simp: upload_inv_def)
  with assms have pre: "addFileInflight s = []" "isUploading s"
    by (auto simp: upload_inv_def)
  with assms t show ?thesis
    by (simp add: upload_inv_def step_def timeout_fire_nf)
qed

lemma inv_render:
  assumes "upload_inv s"
  shows "upload_inv (step s Render)"
  using assms by (simp add: upload_inv_def step_def render_nf)

lemma inv_unmount:
  assumes "upload_inv s"
  shows "upload_inv (step s Unmount)"
  using assms by (simp add: upload_inv_def step_def unmount_fields detach_def)

lemma inv_step: "upload_inv s \<Longrightarrow> possible s e \<Longrightarrow> upload_inv (step s e)"
  by (cases e)
     (simp_all only: inv_frame same_upload_handle inv_click inv_change inv_start inv_settle
        inv_tick inv_timeout inv_render inv_unmount)

lemma inv_run: "upload_inv s \<Longrightarrow> run s es = Some t \<Longrightarrow> upload_inv t"
proof (induction es arbitrary: s)
  case Nil
  then show ?case by simp
next
  case (Cons e es)
  from Cons.prems(2) have p: "possible s e" and r: "run (step s e) es = Some t"
    by (simp_all split: if_splits)
  from Cons.prems(1) p have "upload_inv (step s e)"
    by (rule inv_step)
  then show ?case
    using r by (rule Cons.IH)
qed

lemma reachable_inv: "run initial es = Some s \<Longrightarrow> upload_inv s"
  using inv_initial by (rule inv_run)




lemma progress_ok_step:
  assumes "progress_ok s"
  shows "progress_ok (step s e)"
proof (cases e)
  case (FileChange selected)
  show ?thesis
  proof (cases selected)
    case None
    with assms FileChange show ?thesis
      by (simp add: progress_ok_def step_def handleFileSelect_def)
  next
    case (Some f)
    with FileChange show ?thesis
      by (simp add: progress_ok_def step_def handleFileSelect_nf)
  qed
next
  case (AddFileStart i)
  with assms show ?thesis
    by (simp add: progress_ok_def step_def addFile_start_fields)
next
  case (AddFileSettle i)
  show ?thesis
  proof (cases "i < length (addFileInflight s) \<and> \<not> starting (addFileInflight s ! i)")
    case False
    with assms AddFileSettle show ?thesis
      by (simp add: step_def addFile_settle_idle)
  next
    case True
    then obtain followed res where "addFileInflight s ! i = (followed, Awaiting res)"
      by (metis awaiting_entry)
    note f = addFile_settle_fields [OF conjunct1 [OF True] this]
    from assms AddFileSettle show ?thesis
      by (simp add: progress_ok_def step_def f)
  qed
next
  case Tick
  with assms show ?thesis
    by (auto simp: progress_ok_def step_def progress_tick_fields progress_tick_progress
          split: option.splits)
next
  case TimeoutFire
  with assms show ?thesis
    by (cases "timeouts s") (simp_all add: progress_ok_def step_def timeout_fire_nf timeout_fire_idle)
next
  case Unmount
  with assms show ?thesis
    by (simp add: progress_ok_def step_def unmount_fields)
next
  case Render
  with assms show ?thesis
    by (simp add: progress_ok_def step_def render_nf)
next
  case ClickUpload
  with assms show ?thesis
    by (simp add: progress_ok_def step_def handleUploadClick_def)
qed (use assms same_upload_handle [of s] in \<open>simp_all add: progress_ok_def step_def same_upload_def\<close>)

lemma progress_ok_run: "progress_ok s \<Longrightarrow> run s es = Some t \<Longrightarrow> progress_ok t"
proof (induction es arbitrary: s)
  case Nil
  then show ?case by simp
next
  case (Cons e es)
  from Cons.prems(2) have r: "run (step s e) es = Some t"
    by (simp split: if_splits)
  from Cons.prems(1) have "progress_ok (step s e)"
    by (rule progress_ok_step)
  then show ?case
    using r by (rule Cons.IH)
qed

lemma rnd_50: "rnd 50 = 50"
  by code_simp

lemma rnd_19_10: "rnd (19 / 10) = 4278419646001971 / 2251799813685248"
  by code_simp

lemma steps_eq: "steps = 50"
  by (simp add: steps_def duration_def intervalTime_def fl_div_def rnd_50)

lemma increment_val: "increment = 4278419646001971 / 2251799813685248"
  by (simp add: increment_def steps_eq fl_div_def rnd_19_10)

lemma tick_sums:
  "rnd (0 + 4278419646001971 / 2251799813685248) = 4278419646001971 / 2251799813685248"
  "rnd (4278419646001971 / 2251799813685248 + 4278419646001971 / 2251799813685248) = 4278419646001971 / 1125899906842624"
  "rnd (4278419646001971 / 1125899906842624 + 4278419646001971 / 2251799813685248) = 1604407367250739 / 281474976710656"
  "rnd (1604407367250739 / 281474976710656 + 4278419646001971 / 2251799813685248) = 4278419646001971 / 562949953421312"
  "rnd (4278419646001971 / 562949953421312 + 4278419646001971 / 2251799813685248) = 19 / 2"
  "rnd (19 / 2 + 4278419646001971 / 2251799813685248) = 6417629469002957 / 562949953421312"
  "rnd (6417629469002957 / 562949953421312 + 4278419646001971 / 2251799813685248) = 3743617190251725 / 281474976710656"
  "rnd (3743617190251725 / 281474976710656 + 4278419646001971 / 2251799813685248) = 8556839292003943 / 562949953421312"
  "rnd (8556839292003943 / 562949953421312 + 4278419646001971 / 2251799813685248) = 2406611050876109 / 140737488355328"
  "rnd (2406611050876109 / 140737488355328 + 4278419646001971 / 2251799813685248) = 19"
  "rnd (19 + 4278419646001971 / 2251799813685248) = 2941413506626355 / 140737488355328"
  "rnd (2941413506626355 / 140737488355328 + 4278419646001971 / 2251799813685248) = 1604407367250739 / 70368744177664"
  "rnd (1604407367250739 / 70368744177664 + 4278419646001971 / 2251799813685248) = 3476215962376601 / 140737488355328"
  "rnd (3476215962376601 / 140737488355328 + 4278419646001971 / 2251799813685248) = 935904297562931 / 35184372088832"
  "rnd (935904297562931 / 35184372088832 + 4278419646001971 / 2251799813685248) = 4011018418126847 / 140737488355328"
  "rnd (4011018418126847 / 140737488355328 + 4278419646001971 / 2251799813685248) = 2139209823000985 / 70368744177664"
  "rnd (2139209823000985 / 70368744177664 + 4278419646001971 / 2251799813685248) = 4545820873877093 / 140737488355328"
  "rnd (4545820873877093 / 140737488355328 + 4278419646001971 / 2251799813685248) = 601652762719027 / 17592186044416"
  "rnd (601652762719027 / 17592186044416 + 4278419646001971 / 2251799813685248) = 5080623329627339 / 140737488355328"
  "rnd (5080623329627339 / 140737488355328 + 4278419646001971 / 2251799813685248) = 2674012278751231 / 70368744177664"
  "rnd (2674012278751231 / 70368744177664 + 4278419646001971 / 2251799813685248) = 5615425785377585 / 140737488355328"
  "rnd (5615425785377585 / 140737488355328 + 4278419646001971 / 2251799813685248) = 1470706753313177 / 35184372088832"
  "rnd (1470706753313177 / 35184372088832 + 4278419646001971 / 2251799813685248) = 6150228241127831 / 140737488355328"
  "rnd (6150228241127831 / 140737488355328 + 4278419646001971 / 2251799813685248) = 3208814734501477 / 70368744177664"
  "rnd (3208814734501477 / 70368744177664 + 4278419646001971 / 2251799813685248) = 6685030696878077 / 140737488355328"
  "rnd (6685030696878077 / 140737488355328 + 4278419646001971 / 2251799813685248) = 434526995297075 / 8796093022208"
  "rnd (434526995297075 / 8796093022208 + 4278419646001971 / 2251799813685248) = 7219833152628323 / 140737488355328"
  "rnd (7219833152628323 / 140737488355328 + 4278419646001971 / 2251799813685248) = 3743617190251723 / 70368744177664"
  "rnd (3743617190251723 / 70368744177664 + 4278419646001971 / 2251799813685248) = 7754635608378569 / 140737488355328"
  "rnd (7754635608378569 / 140737488355328 + 4278419646001971 / 2251799813685248) = 2005509209063423 / 35184372088832"
  "rnd (2005509209063423 / 35184372088832 + 4278419646001971 / 2251799813685248) = 8289438064128815 / 140737488355328"
  "rnd (8289438064128815 / 140737488355328 + 4278419646001971 / 2251799813685248) = 4278419646001969 / 70368744177664"
  "rnd (4278419646001969 / 70368744177664 + 4278419646001971 / 2251799813685248) = 8824240519879061 / 140737488355328"
  "rnd (8824240519879061 / 140737488355328 + 4278419646001971 / 2251799813685248) = 1136455218469273 / 17592186044416"
  "rnd (1136455218469273 / 17592186044416 + 4278419646001971 / 2251799813685248) = 2339760743907327 / 35184372088832"
  "rnd (2339760743907327 / 35184372088832 + 4278419646001971 / 2251799813685248) = 601652762719027 / 8796093022208"
  "rnd (601652762719027 / 8796093022208 + 4278419646001971 / 2251799813685248) = 2473461357844889 / 35184372088832"
  "rnd (2473461357844889 / 35184372088832 + 4278419646001971 / 2251799813685248) = 1270155832406835 / 17592186044416"
  "rnd (1270155832406835 / 17592186044416 + 4278419646001971 / 2251799813685248) = 2607161971782451 / 35184372088832"
  "rnd (2607161971782451 / 35184372088832 + 4278419646001971 / 2251799813685248) = 76"
  "rnd (76 + 4278419646001971 / 2251799813685248) = 2740862585720013 / 35184372088832"
  "rnd (2740862585720013 / 35184372088832 + 4278419646001971 / 2251799813685248) = 1403856446344397 / 17592186044416"
  "rnd (1403856446344397 / 17592186044416 + 4278419646001971 / 2251799813685248) = 2874563199657575 / 35184372088832"
  "rnd (2874563199657575 / 35184372088832 + 4278419646001971 / 2251799813685248) = 735353376656589 / 8796093022208"
  "rnd (735353376656589 / 8796093022208 + 4278419646001971 / 2251799813685248) = 3008263813595137 / 35184372088832"
  "rnd (3008263813595137 / 35184372088832 + 4278419646001971 / 2251799813685248) = 1537557060281959 / 17592186044416"
  "rnd (1537557060281959 / 17592186044416 + 4278419646001971 / 2251799813685248) = 3141964427532699 / 35184372088832"
  "rnd (3141964427532699 / 35184372088832 + 4278419646001971 / 2251799813685248) = 401101841812685 / 4398046511104"
  "rnd (401101841812685 / 4398046511104 + 4278419646001971 / 2251799813685248) = 3275665041470261 / 35184372088832"
  "rnd (3275665041470261 / 35184372088832 + 4278419646001971 / 2251799813685248) = 1671257674219521 / 17592186044416"
  by code_simp+

lemma ramps_table: "ramps 50 0 = ramp_table"
  by (simp only: eval_nat_numeral BitM.simps ramps.simps fl_add_def increment_val tick_sums
        ramp_table_def)

lemma ramps_ramp: "ramps n (ramp j) = map ramp [j..<Suc (j + n)]"
proof (induction n arbitrary: j)
  case 0
  then show ?case by simp
next
  case (Suc n)
  have "ramps (Suc n) (ramp j) = ramp j # ramps n (ramp (Suc j))"
    by simp
  also have "\<dots> = ramp j # map ramp [Suc j..<Suc (Suc j + n)]"
    by (simp only: Suc.IH)
  also have "\<dots> = map ramp (j # [Suc j..<Suc (Suc j + n)])"
    by simp
  also have "j # [Suc j..<Suc (Suc j + n)] = [j..<Suc (j + Suc n)]"
    by (simp add: upt_rec [of j])
  finally show ?case .
qed

lemma ramp_nth: "k < 51 \<Longrightarrow> ramp k = ramp_table ! k"
proof -
  assume k: "k < 51"
  have "map ramp [0..<51] = ramp_table"
    using ramps_ramp [of 50 0] ramps_table by simp
  then have "ramp_table ! k = map ramp [0..<51] ! k"
    by simp
  also have "\<dots> = ramp k"
    using k by (simp del: upt_Suc)
  finally show ?thesis by simp
qed

lemma table_below: "list_all (\<lambda>k. ramp_table ! k < 95) [0..<50]"
  by code_simp

lemma table_close:
  "list_all (\<lambda>k. \<bar>ramp_table ! k - of_nat k * (19 / 10)\<bar> \<le> 1 / 10 ^ 13) [0..<51]"
  by code_simp

lemma table_50: "ramp_table ! 50 = 1671257674219521 / 17592186044416"
  by code_simp

lemma table_3: "ramp_table ! 3 = 1604407367250739 / 281474976710656"
  by code_simp

lemma ramp_below: "k < 50 \<Longrightarrow> ramp k < 95"
proof -
  assume k: "k < 50"
  then have "ramp_table ! k < 95"
    using table_below by (simp add: list_all_iff)
  with k show ?thesis
    by (simp add: ramp_nth)
qed

lemma ramp_close: "k \<le> 50 \<Longrightarrow> \<bar>ramp k - of_nat k * (19 / 10)\<bar> \<le> 1 / 10 ^ 13"
proof -
  assume k: "k \<le> 50"
  then have "k \<in> set [0..<51]"
    by simp
  then have "\<bar>ramp_table ! k - of_nat k * (19 / 10)\<bar> \<le> 1 / 10 ^ 13"
    using table_close unfolding list_all_iff by blast
  with k show ?thesis
    by (simp add: ramp_nth)
qed

lemma ramp_50: "ramp 50 = 1671257674219521 / 17592186044416"
  by (simp add: ramp_nth table_50)

lemma ramp_3: "ramp 3 = 1604407367250739 / 281474976710656"
  by (simp add: ramp_nth table_3)

lemma ramp_reaches: "95 \<le> ramp 50"
  by (simp add: ramp_50)

lemma ramp_interval:
  "interval ((progress_tick ^^ k) (t\<lparr>interval := Some 0\<rparr>)) =
     (if k < 50 then Some (ramp k) else None)"
proof (induction k)
  case 0
  then show ?case by simp
next
  case (Suc k)
  show ?case
  proof (cases "Suc k < 50")
    case True
    then have "ramp (Suc k) < 95"
      by (rule ramp_below)
    with True Suc show ?thesis
      by (simp add: progress_tick_interval)
  next
    case False
    show ?thesis
    proof (cases "k < 50")
      case True
      with False have "k = 49"
        by simp
      then have "95 \<le> fl_add (ramp k) increment"
        using ramp_reaches by (simp add: eval_nat_numeral)
      with True False Suc show ?thesis
        by (simp add: progress_tick_interval)
    next
      case False
      with Suc show ?thesis
        by (simp add: progress_tick_interval)
    qed
  qed
qed

lemma ramp_progress:
  "uploadProgress ((progress_tick ^^ Suc k) (t\<lparr>interval := Some 0\<rparr>)) =
     (if k < 49 then ramp (Suc k) else 95)"
proof (induction k)
  case 0
  have "ramp (Suc 0) < 95"
    by (rule ramp_below) simp
  then show ?case
    by (simp add: progress_tick_progress)
next
  case (Suc k)
  note iv = ramp_interval [of "Suc k" t]
  show ?case
  proof (cases "Suc k < 49")
    case True
    then have "ramp (Suc (Suc k)) < 95"
      by (intro ramp_below) simp
    with True iv show ?thesis
      by (simp add: progress_tick_progress)
  next
    case False
    show ?thesis
    proof (cases "Suc k = 49")
      case True
      then have reach: "95 \<le> fl_add (ramp (Suc k)) increment"
        using ramp_reaches by (simp add: eval_nat_numeral)
      from True have lt: "Suc k < 50" and nlt: "\<not> k < 48"
        by simp_all
      from lt nlt iv reach show ?thesis
        by (simp add: progress_tick_progress)
    next
      case ne: False
      with False have "\<not> Suc k < 50" "\<not> k < 49"
        by simp_all
      with iv Suc show ?thesis
        by (simp add: progress_tick_progress)
    qed
  qed
qed

lemmas eval_defs = step_def render_def effect_deps_def progress_effect_def progress_cleanup_def
  actor_change_def query_sync_def fetchFiles_def files_settle_def useGetFiles_enabled_def
  useGetFiles_queryFn_def handleUploadClick_def upload_button_disabled_def
  handleFileSelect_def addFile_mutate_def addFile_start_def useAddFile_mutationFn_def detach_def
  addFile_settle_def useAddFile_onSuccess_def invalidateQueries_def select_onSuccess_def
  select_onError_def remove_nth_def timeout_fire_def settle_reset_def
  unmount_def prims Let_def

lemma uploading_state_eq:
  "uploading_state =
     initial\<lparr>actor := Some accepting_actor, filesData := Some [],
       isUploading := True, addFileStatus := MPending,
       addFileInflight := [(True, Awaiting (Inr ()))],
       renderedDeps := (True, True), interval := Some 0,
       trace := [Remote GetFilesCall, SetIsUploading True, SetUploadProgress 0,
         Notify (ToastSuccess ''Selected: report.pdf'' (SizeKB 204800)),
         SetInterval intervalTime, Remote (AddFileCall ''report.pdf'' 204800)]\<rparr>"
  by (simp add: uploading_state_def upload_start_def report_pdf_def initial_def accepting_actor_def
        eval_defs)

lemma run_upload_start: "run initial upload_start = Some uploading_state"
  by (simp add: uploading_state_def upload_start_def report_pdf_def initial_def accepting_actor_def
        eval_defs files_def)

lemma uploaded_state_eq:
  "uploaded_state =
     initial\<lparr>actor := Some accepting_actor, filesData := Some [],
       filesInvalidated := True, filesFetch := Some (Some accepting_actor, 0, Inr []),
       isUploading := True, uploadProgress := 100, addFileStatus := MSuccess,
       renderedDeps := (True, True), interval := Some 0, timeouts := [500],
       trace := [Remote GetFilesCall, SetIsUploading True, SetUploadProgress 0,
         Notify (ToastSuccess ''Selected: report.pdf'' (SizeKB 204800)),
         SetInterval intervalTime, Remote (AddFileCall ''report.pdf'' 204800),
         AddFileResolved, InvalidateFiles, Remote GetFilesCall, SetUploadProgress 100,
         Notify (ToastSuccess ''File uploaded successfully!'' NoDescription),
         SetTimeout 500]\<rparr>"
  by (simp add: uploaded_state_def upload_done_def upload_start_def report_pdf_def initial_def
        accepting_actor_def eval_defs)

lemma run_upload_done: "run initial upload_done = Some uploaded_state"
  by (simp add: uploaded_state_def upload_done_def upload_start_def report_pdf_def initial_def
        accepting_actor_def eval_defs files_def)

lemma rejected_state_eq:
  "rejected_state =
     initial\<lparr>actor := Some rejecting_actor, filesData := Some [], addFileStatus := MError,
       renderedDeps := (False, False),
       trace := [Remote GetFilesCall, SetIsUploading True, SetUploadProgress 0,
         Notify (ToastSuccess ''Selected: x.bin'' (SizeKB 10)),
         SetInterval intervalTime, Remote (AddFileCall ''x.bin'' 10),
         AddFileRejected (JsError ''quota exceeded''),
         Notify (ToastError ''Failed to upload file'' NoDescription),
         ConsoleError ''Upload error:'' (JsError ''quota exceeded''),
         SetIsUploading False, SetUploadProgress 0, ClearInterval]\<rparr>"
  by (simp add: rejected_state_def upload_rejected_def x_bin_def initial_def rejecting_actor_def
        eval_defs)

lemma run_upload_rejected: "run initial upload_rejected = Some rejected_state"
  by (simp add: rejected_state_def upload_rejected_def x_bin_def initial_def rejecting_actor_def
        eval_defs files_def)






lemma refreshed_late_state_eq:
  "refreshed_late_state =
     initial\<lparr>actor := Some stocked_actor, filesData := Some [],
       filesInvalidated := True,
       filesFetch := Some (Some stocked_actor, 0,
         Inr [\<lparr>fm_id = 7, fm_name = ''report.pdf'', fm_size = 204800\<rparr>]),
       isUploading := True, uploadProgress := 100, addFileStatus := MSuccess,
       renderedDeps := (True, True), interval := Some 0, timeouts := [500],
       trace := [Remote GetFilesCall, SetIsUploading True, SetUploadProgress 0,
         Notify (ToastSuccess ''Selected: report.pdf'' (SizeKB 204800)),
         SetInterval intervalTime, Remote (AddFileCall ''report.pdf'' 204800),
         AddFileResolved, InvalidateFiles, Remote GetFilesCall, SetUploadProgress 100,
         Notify (ToastSuccess ''File uploaded successfully!'' NoDescription),
         SetTimeout 500]\<rparr>"
  by (simp add: refreshed_late_state_def refreshed_late_def report_pdf_def initial_def
        accepting_actor_def stocked_actor_def eval_defs)

lemma run_refreshed_late: "run initial refreshed_late = Some refreshed_late_state"
  by (simp add: refreshed_late_state_def refreshed_late_def report_pdf_def initial_def
        accepting_actor_def stocked_actor_def eval_defs files_def)

lemma handleDownload_nf:
  "handleDownload fileId fileName s =
     handleDownload_resume (snd (useGetFileContent_mutationFn (actor s) fileId))
       (s\<lparr>trace := trace s @ map Remote (fst (useGetFileContent_mutationFn (actor s) fileId)),
           getContentInflight := detach (getContentInflight s),
           getContentStatus :=
             (case snd (useGetFileContent_mutationFn (actor s) fileId) of
                Inr _ \<Rightarrow> MSuccess | Inl _ \<Rightarrow> MError)\<rparr>)"
  by (simp add: handleDownload_def handleDownload_call_def getContent_start_def
        getContent_settle_def split_beta Let_def nth_append remove_nth_def detach_def)

lemma count_remote: "count_list (map Remote calls) InvalidateFiles = 0"
  by (induction calls) simp_all

lemma count_settle:
  "count_list (trace (addFile_settle i s)) InvalidateFiles =
     count_list (trace s) InvalidateFiles + (if accepts s (AddFileSettle i) then 1 else 0)"
proof (cases "i < length (addFileInflight s) \<and> \<not> starting (addFileInflight s ! i)")
  case False
  then have "\<not> accepts s (AddFileSettle i)"
    by (cases "addFileInflight s ! i" rule: starting.cases) (auto simp: accepts_def accepted_def)
  with False show ?thesis
    by (simp add: addFile_settle_idle)
next
  case True
  then have i: "i < length (addFileInflight s)"
    by simp
  from True obtain followed res where entry: "addFileInflight s ! i = (followed, Awaiting res)"
    by (metis awaiting_entry)
  show ?thesis
  proof (cases res)
    case (Inl e)
    from addFile_settle_rejected [OF i entry [unfolded Inl]] i entry Inl show ?thesis
      by (simp add: accepts_def accepted_def select_onError_nf emit_def)
  next
    case (Inr u)
    from addFile_settle_resolved [OF i entry [unfolded Inr]] i entry Inr show ?thesis
      by (simp add: accepts_def accepted_def select_onSuccess_nf invalidateQueries_nf emit_def
            count_remote)
  qed
qed

lemma count_step:
  "count_list (trace (step s e)) InvalidateFiles =
     count_list (trace s) InvalidateFiles + (if accepts s e then 1 else 0)"
proof (cases e)
  case (AddFileSettle i)
  then show ?thesis
    by (simp add: step_def count_settle)
next
  case (FileChange selected)
  then show ?thesis
    by (cases selected)
       (simp_all add: step_def accepts_def handleFileSelect_nf, simp add: handleFileSelect_def)
next
  case (ActorUpdate a fetching)
  then show ?thesis
    by (simp add: step_def accepts_def actor_change_def query_sync_def fetchFiles_def split_beta
          count_remote)
next
  case FilesSettle
  then show ?thesis
    by (simp add: step_def accepts_def files_settle_def split_beta count_remote
          split: option.splits sum.splits)
next
  case (AddFileStart i)
  then show ?thesis
    by (simp add: step_def accepts_def addFile_start_def split_beta count_remote
          split: promise.splits)
next
  case (GetContentStart j)
  then show ?thesis
    by (simp add: step_def accepts_def getContent_start_def split_beta count_remote
          split: promise.splits)
next
  case (GetContentSettle j)
  then show ?thesis
    by (simp add: step_def accepts_def getContent_settle_def handleDownload_resume_def split_beta
          Let_def prims split: sum.splits promise.splits)
next
  case Tick
  then show ?thesis
    by (simp add: step_def accepts_def progress_tick_def Let_def prims split: option.splits)
next
  case TimeoutFire
  then show ?thesis
    by (simp add: step_def accepts_def timeout_fire_def settle_reset_nf split: list.splits)
next
  case Render
  then show ?thesis
    by (simp add: step_def accepts_def render_nf split: option.splits)
next
  case Unmount
  then show ?thesis
    by (simp add: step_def accepts_def unmount_def progress_cleanup_def emit_def split: option.splits)
qed (simp_all add: step_def accepts_def handleUploadClick_def handleDeleteClick_def
       handleDownload_call_def handleConfirmDelete_def handleCancelDelete_def prims)

lemma step_settle_accepted:
  assumes "mounted s" and "addFileInflight s = [(True, Awaiting (Inr ()))]"
  shows "trace (step s (AddFileSettle 0)) =
           trace s @ [AddFileResolved, InvalidateFiles] @
           (if useGetFiles_enabled (actor s) (actorFetching s)
               \<and> (filesFetch s = None \<or> filesData s \<noteq> None)
            then map Remote (fst (useGetFiles_queryFn (actor s))) else []) @
           [SetUploadProgress 100,
            Notify (ToastSuccess ''File uploaded successfully!'' NoDescription),
            SetTimeout 500]"
    and "uploadProgress (step s (AddFileSettle 0)) = 100"
    and "isUploading (step s (AddFileSettle 0)) = isUploading s"
    and "timeouts (step s (AddFileSettle 0)) = timeouts s @ [500]"
    and "addFileStatus (step s (AddFileSettle 0)) = MSuccess"
    and "filesData (step s (AddFileSettle 0)) = filesData s"
    and "addFileInflight (step s (AddFileSettle 0)) = []"
proof -
  have i: "0 < length (addFileInflight s)"
    and entry: "addFileInflight s ! 0 = (True, Awaiting (Inr ()))"
    using assms(2) by simp_all
  note eq = addFile_settle_resolved [OF i entry]
  note f = addFile_settle_fields [OF i entry]
  show "trace (step s (AddFileSettle 0)) =
           trace s @ [AddFileResolved, InvalidateFiles] @
           (if useGetFiles_enabled (actor s) (actorFetching s)
               \<and> (filesFetch s = None \<or> filesData s \<noteq> None)
            then map Remote (fst (useGetFiles_queryFn (actor s))) else []) @
           [SetUploadProgress 100,
            Notify (ToastSuccess ''File uploaded successfully!'' NoDescription),
            SetTimeout 500]"
    using assms(1) by (auto simp: step_def eq select_onSuccess_nf invalidateQueries_nf emit_def)
  show "uploadProgress (step s (AddFileSettle 0)) = 100"
    by (simp add: step_def f)
  show "isUploading (step s (AddFileSettle 0)) = isUploading s"
    by (simp add: step_def f)
  show "timeouts (step s (AddFileSettle 0)) = timeouts s @ [500]"
    by (simp add: step_def f)
  show "addFileStatus (step s (AddFileSettle 0)) = MSuccess"
    by (simp add: step_def f)
  show "filesData (step s (AddFileSettle 0)) = filesData s"
    by (simp add: step_def f)
  show "addFileInflight (step s (AddFileSettle 0)) = []"
    using assms(2) by (simp add: step_def f remove_nth_def)
qed

lemma step_timeout_reset:
  assumes "timeouts s = [d]"
  shows "trace (step s TimeoutFire) = trace s @ [SetIsUploading False, SetUploadProgress 0]"
    and "\<not> isUploading (step s TimeoutFire)"
    and "uploadProgress (step s TimeoutFire) = 0"
    and "timeouts (step s TimeoutFire) = []"
    and "filesData (step s TimeoutFire) = filesData s"
  using assms by (simp_all add: step_def timeout_fire_nf)

lemma upload_rejection_effects:
  assumes "i < length (addFileInflight s)" and "addFileInflight s ! i = (True, Awaiting (Inl e))"
  shows "trace (addFile_settle i s) =
           trace s @ [AddFileRejected e,
             Notify (ToastError ''Failed to upload file'' NoDescription),
             ConsoleError ''Upload error:'' e, SetIsUploading False, SetUploadProgress 0]"
    and "filesData (addFile_settle i s) = filesData s"
    and "filesInvalidated (addFile_settle i s) = filesInvalidated s"
    and "filesFetch (addFile_settle i s) = filesFetch s"
    and "\<not> isUploading (addFile_settle i s)"
    and "uploadProgress (addFile_settle i s) = 0"
    and "timeouts (addFile_settle i s) = timeouts s"
  by (simp_all add: addFile_settle_rejected [OF assms] select_onError_nf emit_def)


lemma start_after_select:
  "addFile_start (length (addFileInflight s)) (handleFileSelect (Some f) s) =
     (handleFileSelect (Some f) s)
       \<lparr>addFileInflight := detach (addFileInflight s) @
          [(True, Awaiting (snd (useAddFile_mutationFn (actor s) (file_name f) (int (file_size f)))))],
        trace := trace (handleFileSelect (Some f) s) @
          map Remote (fst (useAddFile_mutationFn (actor s) (file_name f) (int (file_size f))))\<rparr>"
proof -
  let ?h = "handleFileSelect (Some f) s"
  have len: "length (addFileInflight s) < length (addFileInflight ?h)"
    by (simp add: handleFileSelect_nf detach_def)
  have entry: "addFileInflight ?h ! length (addFileInflight s) =
      (True, Starting (actor s) (file_name f, int (file_size f)))"
    by (simp add: handleFileSelect_nf detach_def nth_append)
  have upd: "(addFileInflight ?h)[length (addFileInflight s) := x] = detach (addFileInflight s) @ [x]" for x
    by (simp add: handleFileSelect_nf detach_def list_update_append)
  show ?thesis
    by (simp only: addFile_start_nf [OF len entry] upd)
qed

lemma accepted_early_state_eq:
  "accepted_early_state =
     initial\<lparr>actor := Some accepting_actor,
       filesInvalidated := True, filesFetch := Some (Some accepting_actor, 0, Inr []),
       isUploading := True, uploadProgress := 100, addFileStatus := MSuccess,
       renderedDeps := (True, True), interval := Some 0, timeouts := [500],
       trace := [Remote GetFilesCall, SetIsUploading True, SetUploadProgress 0,
         Notify (ToastSuccess ''Selected: report.pdf'' (SizeKB 204800)),
         SetInterval intervalTime, Remote (AddFileCall ''report.pdf'' 204800),
         AddFileResolved, InvalidateFiles, SetUploadProgress 100,
         Notify (ToastSuccess ''File uploaded successfully!'' NoDescription),
         SetTimeout 500]\<rparr>"
  by (simp add: accepted_early_state_def accepted_early_def report_pdf_def initial_def
        accepting_actor_def eval_defs)

lemma run_accepted_early: "run initial accepted_early = Some accepted_early_state"
  by (simp add: accepted_early_state_def accepted_early_def report_pdf_def initial_def
        accepting_actor_def eval_defs files_def)

lemma settle_fetch:
  assumes "mounted s" and "addFileInflight s = [(True, Awaiting (Inr ()))]"
  shows "filesFetch (step s (AddFileSettle 0)) =
           (if useGetFiles_enabled (actor s) (actorFetching s)
               \<and> (filesFetch s = None \<or> filesData s \<noteq> None)
            then Some (actor s, 0, snd (useGetFiles_queryFn (actor s))) else filesFetch s)"
proof -
  have i: "0 < length (addFileInflight s)"
    and entry: "addFileInflight s ! 0 = (True, Awaiting (Inr ()))"
    using assms(2) by simp_all
  show ?thesis
    using assms(1)
    by (auto simp: step_def addFile_settle_resolved [OF i entry] select_onSuccess_nf
          invalidateQueries_nf emit_def)
qed



section \<open>Claims\<close>

text \<open>
  C1. The run of scenario C: the actor is ready, the user selects \<^verbatim>\<open>x.bin\<close> of 10
  bytes, the effect registers the progress interval, the mutation function issues the
  remote \<^verbatim>\<open>addFile\<close>, and the remote rejects with the error \<^verbatim>\<open>quota exceeded\<close>.  The
  cached list is not invalidated and no fetch is started, the uploading flag and the
  progress are reset in the step of the rejection with no reset timer left, the next
  render clears the interval, and the cause reaches the console only: the notification is
  the fixed text \<^verbatim>\<open>Failed to upload file\<close> with no description.
\<close>

theorem upload_failure_notification:
  "run initial upload_rejected = Some rejected_state
   \<and> trace rejected_state =
        [Remote GetFilesCall, SetIsUploading True, SetUploadProgress 0,
         Notify (ToastSuccess ''Selected: x.bin'' (SizeKB 10)),
         SetInterval 30, Remote (AddFileCall ''x.bin'' 10),
         AddFileRejected (JsError ''quota exceeded''),
         Notify (ToastError ''Failed to upload file'' NoDescription),
         ConsoleError ''Upload error:'' (JsError ''quota exceeded''),
         SetIsUploading False, SetUploadProgress 0, ClearInterval]
   \<and> filesData rejected_state = Some [] \<and> \<not> filesInvalidated rejected_state
   \<and> filesFetch rejected_state = None
   \<and> \<not> isUploading rejected_state \<and> uploadProgress rejected_state = 0
   \<and> timeouts rejected_state = [] \<and> interval rejected_state = None"
  using run_upload_rejected
  by (simp add: rejected_state_eq initial_def intervalTime_def)

text \<open>
  C2. In every state that a session can reach, a progress value of 100 stands next to a
  mutation that settled successfully.  A tick of the interval either leaves the progress
  value alone (no interval registered) or sets it to at most 95.  The effect starts the
  interval at 0 when the uploading flag is set and the mutation is pending; the tick period
  is 30 ms and 50 periods make the duration of 1500 ms.  In binary64 arithmetic the
  number of steps is 50 and the increment is the double nearest to 19/10.  Counted from
  the start of the interval, the closure value after \<open>k\<close> ticks is \<open>ramp k\<close>, the
  \<open>k\<close>-fold rounded sum of the increment; the progress after tick \<open>k + 1\<close> is
  \<open>ramp (k + 1)\<close> up to tick 49 and 95 from tick 50 on, and the interval is registered
  before tick 50 and cleared from tick 50 on.  Up to tick 50 the rounded sum stays within
  \<open>10\<^sup>-\<^sup>1\<^sup>3\<close> of \<open>k * 19/10\<close>, it is below 95 before tick 50 and not below 95 at tick
  50; at tick 3 it is the double 5.699999999999999 and at tick 50 the double
  95.00000000000006.
\<close>

theorem progress_full_only_after_success:
  "(run initial es = Some s \<longrightarrow> uploadProgress s = 100 \<longrightarrow> addFileStatus s = MSuccess)
   \<and> (uploadProgress (progress_tick t) = uploadProgress t \<or> uploadProgress (progress_tick t) \<le> 95)
   \<and> interval (progress_effect t) =
       (if isUploading t \<and> addFileStatus t = MPending then Some 0 else interval t)
   \<and> intervalTime = 30 \<and> 50 * intervalTime = duration \<and> steps = 50
   \<and> increment = 4278419646001971 / 2251799813685248
   \<and> interval ((progress_tick ^^ k) (t\<lparr>interval := Some 0\<rparr>)) =
       (if k < 50 then Some (ramp k) else None)
   \<and> uploadProgress ((progress_tick ^^ Suc k) (t\<lparr>interval := Some 0\<rparr>)) =
       (if k < 49 then ramp (Suc k) else 95)
   \<and> (k \<le> 50 \<longrightarrow> \<bar>ramp k - of_nat k * (19 / 10)\<bar> \<le> 1 / 10 ^ 13)
   \<and> (k < 50 \<longrightarrow> ramp k < 95) \<and> 95 \<le> ramp 50
   \<and> ramp 3 = 1604407367250739 / 281474976710656
   \<and> ramp 50 = 1671257674219521 / 17592186044416"
proof -
  have "progress_ok initial"
    by (simp add: progress_ok_def initial_def)
  then have "run initial es = Some s \<Longrightarrow> progress_ok s"
    by (rule progress_ok_run)
  then have at_full: "run initial es = Some s \<longrightarrow> uploadProgress s = 100 \<longrightarrow> addFileStatus s = MSuccess"
    by (auto simp: progress_ok_def)
  have clamp: "uploadProgress (progress_tick t) = uploadProgress t \<or> uploadProgress (progress_tick t) \<le> 95"
    by (cases "interval t") (simp_all add: progress_tick_progress)
  have started: "interval (progress_effect t) =
       (if isUploading t \<and> addFileStatus t = MPending then Some 0 else interval t)"
    by (simp add: progress_effect_def emit_def)
  have timing: "intervalTime = 30" "50 * intervalTime = duration"
    by (simp_all add: intervalTime_def duration_def)
  have close: "k \<le> 50 \<longrightarrow> \<bar>ramp k - of_nat k * (19 / 10)\<bar> \<le> 1 / 10 ^ 13"
    using ramp_close by blast
  have below: "k < 50 \<longrightarrow> ramp k < 95"
    using ramp_below by blast
  from at_full clamp started timing steps_eq increment_val ramp_interval [of k t]
    ramp_progress [of k t] close below ramp_reaches ramp_3 ramp_50
  show ?thesis
    by (simp only: simp_thms)
qed

theorem progress_full_only_after_success_witness:
  "run initial upload_done = Some uploaded_state
   \<and> uploadProgress uploaded_state = 100 \<and> addFileStatus uploaded_state = MSuccess
   \<and> interval uploading_state = Some 0
   \<and> uploadProgress ((progress_tick ^^ 50) uploading_state) = 95
   \<and> interval ((progress_tick ^^ 50) uploading_state) = None
   \<and> \<bar>ramp 49 - 49 * (19 / 10)\<bar> \<le> 1 / 10 ^ 13 \<and> ramp 49 < 95"
proof -
  note at49 = progress_full_only_after_success [of upload_done uploaded_state uploading_state 49]
  note at50 = progress_full_only_after_success [of upload_done uploaded_state uploading_state 50]
  have u: "uploading_state\<lparr>interval := Some 0\<rparr> = uploading_state"
    by (simp add: uploading_state_eq)
  have i0: "interval uploading_state = Some 0"
    by (simp add: uploading_state_eq)
  have d: "uploadProgress uploaded_state = 100"
    by (simp add: uploaded_state_eq)
  have s: "addFileStatus uploaded_state = MSuccess"
    using at49 run_upload_done d by blast
  have e: "Suc 49 = 50"
    by simp
  have "uploadProgress ((progress_tick ^^ Suc 49) (uploading_state\<lparr>interval := Some 0\<rparr>)) =
          (if (49::nat) < 49 then ramp (Suc 49) else 95)"
    using at49 by blast
  then have p: "uploadProgress ((progress_tick ^^ 50) uploading_state) = (if (49::nat) < 49 then ramp 50 else 95)"
    by (simp only: u e)
  then have p': "uploadProgress ((progress_tick ^^ 50) uploading_state) = 95"
    by simp
  have "interval ((progress_tick ^^ 50) (uploading_state\<lparr>interval := Some 0\<rparr>)) =
          (if (50::nat) < 50 then Some (ramp 50) else None)"
    using at50 by blast
  then have n: "interval ((progress_tick ^^ 50) uploading_state) = None"
    by (simp add: u)
  have "(49::nat) \<le> 50 \<longrightarrow> \<bar>ramp 49 - of_nat 49 * (19 / 10)\<bar> \<le> 1 / 10 ^ 13"
    using at49 by blast
  then have c: "\<bar>ramp 49 - 49 * (19 / 10)\<bar> \<le> 1 / 10 ^ 13"
    by simp
  have "(49::nat) < 50 \<longrightarrow> ramp 49 < 95"
    using at49 by blast
  then have b: "ramp 49 < 95"
    by simp
  from run_upload_done d s i0 p' n c b show ?thesis
    by (simp only: simp_thms)
qed

text \<open>
  C3, as the code has it.  The counterexample: with an actor present, selecting a file
  whose name is empty makes the mutation function issue \<^verbatim>\<open>addFile\<close> with the empty name
  and leaves the upload in flight, and the mutation function passes a negative size on to
  the actor.
\<close>

theorem submit_enforces_preconditions_counterexample:
  "trace (addFile_start 0
      (handleFileSelect (Some empty_name) (initial\<lparr>actor := Some accepting_actor\<rparr>))) =
     [SetIsUploading True, SetUploadProgress 0,
      Notify (ToastSuccess ''Selected: '' (SizeKB 0)), Remote (AddFileCall [] 0)]
   \<and> addFileInflight (addFile_start 0
        (handleFileSelect (Some empty_name) (initial\<lparr>actor := Some accepting_actor\<rparr>))) =
       [(True, Awaiting (Inr ()))]
   \<and> useAddFile_mutationFn (Some accepting_actor) [] (- 1) = ([AddFileCall [] (- 1)], Inr ())"
  by (simp add: handleFileSelect_nf addFile_start_def useAddFile_mutationFn_def empty_name_def
        accepting_actor_def initial_def detach_def)

text \<open>
  C3, amended.  Neither the name nor the size is validated: with an actor present the
  mutation function issues exactly one \<^verbatim>\<open>addFile\<close> call with the name and size it was
  given, and \<^verbatim>\<open>handleFileSelect\<close> passes the file's name and its size, a natural number,
  unchanged, so that the mutation it starts issues that call when its function runs.
  Without an actor the mutation function makes no remote call and rejects with the error
  \<^verbatim>\<open>Actor not initialized\<close>; the mutation started by \<^verbatim>\<open>handleFileSelect\<close> then adds no
  remote call to the trace and leaves that rejection in flight.
\<close>

theorem submit_checks_binding_only:
  "useAddFile_mutationFn (Some act) name sz = ([AddFileCall name sz], addFile act name sz)
   \<and> useAddFile_mutationFn None name sz = ([], Inl (JsError ''Actor not initialized''))
   \<and> trace (addFile_start (length (addFileInflight s))
        (handleFileSelect (Some f) (s\<lparr>actor := Some act\<rparr>))) =
       trace s @ [SetIsUploading True, SetUploadProgress 0,
         Notify (ToastSuccess (''Selected: '' @ file_name f) (SizeKB (file_size f))),
         Remote (AddFileCall (file_name f) (int (file_size f)))]
   \<and> addFileInflight (addFile_start (length (addFileInflight s))
        (handleFileSelect (Some f) (s\<lparr>actor := Some act\<rparr>))) =
       detach (addFileInflight s) @ [(True, Awaiting (addFile act (file_name f) (int (file_size f))))]
   \<and> trace (addFile_start (length (addFileInflight s))
        (handleFileSelect (Some f) (s\<lparr>actor := None\<rparr>))) =
       trace s @ [SetIsUploading True, SetUploadProgress 0,
         Notify (ToastSuccess (''Selected: '' @ file_name f) (SizeKB (file_size f)))]
   \<and> addFileInflight (addFile_start (length (addFileInflight s))
        (handleFileSelect (Some f) (s\<lparr>actor := None\<rparr>))) =
       detach (addFileInflight s) @ [(True, Awaiting (Inl (JsError ''Actor not initialized'')))]
   \<and> 0 \<le> int (file_size f)"
  using start_after_select [of "s\<lparr>actor := Some act\<rparr>" f]
    start_after_select [of "s\<lparr>actor := None\<rparr>" f]
  by (simp add: handleFileSelect_nf useAddFile_mutationFn_def)

text \<open>
  C4. For every file id, listed or not, and every state: after \<^verbatim>\<open>handleDeleteClick\<close>
  the deletion is pending; confirming it emits the fixed notification that deletion is
  not implemented and nothing else (no remote call, no invalidation), changes no field
  but the pending deletion, which returns to none, and in particular leaves the cached
  file list as it was; cancelling returns to none and changes nothing else at all.
\<close>

theorem confirm_delete_unsupported:
  "fileToDelete (handleDeleteClick fileId s) = Some fileId
   \<and> handleConfirmDelete (handleDeleteClick fileId s) =
       s\<lparr>fileToDelete := None,
         trace := trace s @ [Notify (ToastError ''Delete functionality not yet implemented in backend''
                                      NoDescription)]\<rparr>
   \<and> handleCancelDelete (handleDeleteClick fileId s) = s\<lparr>fileToDelete := None\<rparr>
   \<and> filesData (handleConfirmDelete (handleDeleteClick fileId s)) = filesData s
   \<and> filesInvalidated (handleConfirmDelete (handleDeleteClick fileId s)) = filesInvalidated s
   \<and> filesFetch (handleConfirmDelete (handleDeleteClick fileId s)) = filesFetch s
   \<and> files (handleConfirmDelete (handleDeleteClick fileId s)) = files s
   \<and> files (handleCancelDelete (handleDeleteClick fileId s)) = files s"
  by (simp add: handleDeleteClick_def handleConfirmDelete_def handleCancelDelete_def
        setFileToDelete_def toast_error_def emit_def files_def)

text \<open>
  C5, as the code has it.  The counterexample: the remote call rejects with a value that
  is not an \<^verbatim>\<open>Error\<close>, here the string \<^verbatim>\<open>connection reset\<close>.  The notification shown to
  the user carries the fixed description \<^verbatim>\<open>Unknown error\<close>; the cause reaches the console
  only.
\<close>

theorem download_cause_counterexample:
  "trace (handleDownload 7 ''old.txt'' (initial\<lparr>actor := Some throwing_actor\<rparr>)) =
     [Remote (GetFileContentCall 7),
      Notify (ToastError ''Failed to download file'' (Description ''Unknown error'')),
      ConsoleError ''Download error:'' (NonError ''connection reset'')]"
  by (simp add: handleDownload_nf useGetFileContent_mutationFn_def handleDownload_resume_def
        toast_error_def console_error_def emit_def throwing_actor_def initial_def)

text \<open>
  C5, amended.  When the remote content of a file is absent, the content mutation makes
  its one remote call and rejects with the error \<^verbatim>\<open>File not found\<close>.  Whenever the
  mutation rejects, \<^verbatim>\<open>handleDownload\<close> adds to the trace the remote calls of that single
  attempt (at most one), the failure notification and the console entry with the rejection
  itself, and nothing else: nothing is saved and nothing is called again.  The description
  of the notification is the message of the rejection when that is an \<^verbatim>\<open>Error\<close>, and the
  fixed text \<^verbatim>\<open>Unknown error\<close> for any other rejection, whatever its value.
\<close>

theorem download_failure_reported:
  "(actor s = Some act \<and> getFileContent act fileId = Inr None \<longrightarrow>
      useGetFileContent_mutationFn (actor s) fileId =
        ([GetFileContentCall fileId], Inl (JsError ''File not found'')))
   \<and> (useGetFileContent_mutationFn (actor s) fileId = (calls, Inl error) \<longrightarrow>
        trace (handleDownload fileId fileName s) =
          trace s @ map Remote calls @
            [Notify (ToastError ''Failed to download file''
               (Description (case error of JsError message \<Rightarrow> message | NonError v \<Rightarrow> ''Unknown error''))),
             ConsoleError ''Download error:'' error]
        \<and> (calls = [] \<or> calls = [GetFileContentCall fileId])
        \<and> getContentStatus (handleDownload fileId fileName s) = MError)"
  by (auto simp: handleDownload_nf useGetFileContent_mutationFn_def handleDownload_resume_def
        toast_error_def console_error_def emit_def split: option.splits)

theorem download_failure_reported_witness:
  "actor renamed_state = Some renaming_actor \<and> getFileContent renaming_actor 42 = Inr None
   \<and> useGetFileContent_mutationFn (actor renamed_state) 42 =
        ([GetFileContentCall 42], Inl (JsError ''File not found''))
   \<and> trace (handleDownload 42 ''old.txt'' renamed_state) =
        [Remote (GetFileContentCall 42),
         Notify (ToastError ''Failed to download file'' (Description ''File not found'')),
         ConsoleError ''Download error:'' (JsError ''File not found'')]
   \<and> getContentStatus (handleDownload 42 ''old.txt'' renamed_state) = MError"
proof -
  have a: "actor renamed_state = Some renaming_actor"
    by (simp add: renamed_state_def)
  have g: "getFileContent renaming_actor 42 = Inr None"
    by (simp add: renaming_actor_def)
  have t: "trace renamed_state = []"
    by (simp add: renamed_state_def initial_def)
  from a g
    download_failure_reported [of renamed_state renaming_actor 42
      "[GetFileContentCall 42]" "JsError ''File not found''" "''old.txt''"]
  show ?thesis
    by (simp add: t)
qed

text \<open>
  C6. When the remote returns a name and bytes for the requested id, \<^verbatim>\<open>handleDownload\<close>
  makes the one remote call, saves the bytes under the name that the remote returned and
  notifies success with that name; the file name it was called with, the one of the
  cached list, does not occur in the result.
\<close>

theorem download_uses_remote_name:
  assumes "actor s = Some act" and "getFileContent act fileId = Inr (Some (remoteName, content))"
  shows "trace (handleDownload fileId fileName s) =
           trace s @ [Remote (GetFileContentCall fileId), SaveAs remoteName content,
             Notify (ToastSuccess ''Download started!'' (Description (''Downloading '' @ remoteName)))]
         \<and> getContentStatus (handleDownload fileId fileName s) = MSuccess"
  using assms
  by (simp add: handleDownload_nf useGetFileContent_mutationFn_def handleDownload_resume_def
        toast_success_def emit_def)

theorem download_uses_remote_name_witness:
  "actor renamed_state = Some renaming_actor
   \<and> getFileContent renaming_actor 7 = Inr (Some (''new.txt'', [1, 2, 3]))
   \<and> map fm_name (files renamed_state) = [''old.txt'']
   \<and> trace (handleDownload 7 ''old.txt'' renamed_state) =
        [Remote (GetFileContentCall 7), SaveAs ''new.txt'' [1, 2, 3],
         Notify (ToastSuccess ''Download started!'' (Description ''Downloading new.txt''))]"
proof -
  have a: "actor renamed_state = Some renaming_actor"
    by (simp add: renamed_state_def)
  have g: "getFileContent renaming_actor 7 = Inr (Some (''new.txt'', [1, 2, 3]))"
    by (simp add: renaming_actor_def)
  have t: "trace renamed_state = []" "map fm_name (files renamed_state) = [''old.txt'']"
    by (simp_all add: renamed_state_def initial_def files_def)
  from download_uses_remote_name [OF a g, of "''old.txt''"] a g t
  show ?thesis
    by simp
qed

text \<open>
  C7. In every state that a session can reach, at most one add-file promise is in
  flight.  The upload button is disabled exactly when the uploading flag is set; while a
  promise is in flight the button is disabled, so it takes no click, and the file picker
  is closed, so no change event can arrive: a second submission cannot start and none is
  kept for later.
\<close>

theorem single_upload_in_flight:
  assumes "run initial es = Some s"
  shows "length (addFileInflight s) \<le> 1
         \<and> upload_button_disabled s = isUploading s
         \<and> (addFileInflight s = []
              \<or> upload_button_disabled s \<and> \<not> possible s ClickUpload
                 \<and> \<not> possible s (FileChange selected))"
  using reachable_inv [OF assms]
  by (auto simp: upload_inv_def upload_button_disabled_def)

theorem single_upload_in_flight_witness:
  "run initial upload_start = Some uploading_state
   \<and> length (addFileInflight uploading_state) = 1
   \<and> upload_button_disabled uploading_state
   \<and> \<not> possible uploading_state ClickUpload
   \<and> \<not> possible uploading_state (FileChange (Some report_pdf))"
  using single_upload_in_flight [OF run_upload_start, of "Some report_pdf"] run_upload_start
  by (simp add: uploading_state_eq initial_def)

text \<open>
  C8, as the code has it.  The counterexample: the cache holds the empty list of the
  first fetch and the remote holds the uploaded file.  When the upload is accepted, the
  invalidation starts a refetch, and the progress is set to 100 while the cache still
  holds the empty list; the reset timer can fire, clearing the flag and the progress, with
  the cache still unchanged, and only the settling of the refetch replaces the list.  In
  the second run the upload is accepted while the first fetch of the list is still in
  flight with no data cached: the invalidation then issues no remote call at all.
\<close>

theorem upload_refresh_counterexample:
  "run initial refreshed_late = Some refreshed_late_state
   \<and> uploadProgress refreshed_late_state = 100
   \<and> files refreshed_late_state = []
   \<and> filesFetch refreshed_late_state =
       Some (Some stocked_actor, 0, Inr [\<lparr>fm_id = 7, fm_name = ''report.pdf'', fm_size = 204800\<rparr>])
   \<and> possible refreshed_late_state TimeoutFire
   \<and> uploadProgress (step refreshed_late_state TimeoutFire) = 0
   \<and> \<not> isUploading (step refreshed_late_state TimeoutFire)
   \<and> files (step refreshed_late_state TimeoutFire) = []
   \<and> possible (step refreshed_late_state TimeoutFire) FilesSettle
   \<and> files (step (step refreshed_late_state TimeoutFire) FilesSettle) =
       [\<lparr>fm_id = 7, fm_name = ''report.pdf'', fm_size = 204800\<rparr>]
   \<and> run initial accepted_early = Some accepted_early_state
   \<and> trace accepted_early_state =
       [Remote GetFilesCall, SetIsUploading True, SetUploadProgress 0,
        Notify (ToastSuccess ''Selected: report.pdf'' (SizeKB 204800)),
        SetInterval 30, Remote (AddFileCall ''report.pdf'' 204800),
        AddFileResolved, InvalidateFiles, SetUploadProgress 100,
        Notify (ToastSuccess ''File uploaded successfully!'' NoDescription),
        SetTimeout 500]"
  using run_refreshed_late run_accepted_early
  by (simp add: refreshed_late_state_eq accepted_early_state_eq initial_def intervalTime_def
        files_def step_def timeout_fire_nf files_settle_def)

text \<open>
  C8, amended.  In a mounted component whose upload is pending with its promise in
  flight, when the promise resolves the effects follow in this order: the acceptance, the
  invalidation of the files query, the remote call of the refetch if one is started, the
  progress set to 100, the success notification, the registration of the 500 ms timer.
  The refetch is started when the query is enabled and either no fetch is in flight or the
  cache holds data; otherwise the fetch in flight is kept.  The cached list is not
  replaced in that step, nor when the timer fires: it is replaced when the fetch settles,
  whenever that is.  The uploading flag stays set and that timer is the only one
  outstanding; when it fires, the flag is cleared and the progress reset to 0.  In any
  state and for any event, the number of invalidations in the trace grows by one when the
  event delivers an acceptance and not at all otherwise.
\<close>

theorem upload_success_order:
  assumes "mounted s" "isUploading s" "addFileStatus s = MPending"
    and "addFileInflight s = [(True, Awaiting (Inr ()))]" "timeouts s = []"
  shows "trace (step s (AddFileSettle 0)) =
           trace s @ [AddFileResolved, InvalidateFiles] @
           (if useGetFiles_enabled (actor s) (actorFetching s)
               \<and> (filesFetch s = None \<or> filesData s \<noteq> None)
            then map Remote (fst (useGetFiles_queryFn (actor s))) else []) @
           [SetUploadProgress 100,
            Notify (ToastSuccess ''File uploaded successfully!'' NoDescription),
            SetTimeout 500]
         \<and> filesFetch (step s (AddFileSettle 0)) =
             (if useGetFiles_enabled (actor s) (actorFetching s)
                 \<and> (filesFetch s = None \<or> filesData s \<noteq> None)
              then Some (actor s, 0, snd (useGetFiles_queryFn (actor s))) else filesFetch s)
         \<and> filesData (step s (AddFileSettle 0)) = filesData s
         \<and> uploadProgress (step s (AddFileSettle 0)) = 100
         \<and> isUploading (step s (AddFileSettle 0))
         \<and> timeouts (step s (AddFileSettle 0)) = [500]
         \<and> possible (step s (AddFileSettle 0)) TimeoutFire
         \<and> trace (step (step s (AddFileSettle 0)) TimeoutFire) =
             trace (step s (AddFileSettle 0)) @ [SetIsUploading False, SetUploadProgress 0]
         \<and> \<not> isUploading (step (step s (AddFileSettle 0)) TimeoutFire)
         \<and> uploadProgress (step (step s (AddFileSettle 0)) TimeoutFire) = 0
         \<and> timeouts (step (step s (AddFileSettle 0)) TimeoutFire) = []
         \<and> filesData (step (step s (AddFileSettle 0)) TimeoutFire) = filesData s
         \<and> count_list (trace (step t e)) InvalidateFiles =
             count_list (trace t) InvalidateFiles + (if accepts t e then 1 else 0)"
proof -
  note first = step_settle_accepted [OF assms(1) assms(4)]
  note fetch = settle_fetch [OF assms(1) assms(4)]
  have t1: "timeouts (step s (AddFileSettle 0)) = [500]"
    using first(4) assms(5) by simp
  have u1: "isUploading (step s (AddFileSettle 0))"
    using first(3) assms(2) by simp
  note second = step_timeout_reset [OF t1]
  have d2: "filesData (step (step s (AddFileSettle 0)) TimeoutFire) = filesData s"
    using second(5) first(6) by simp
  have "possible (step s (AddFileSettle 0)) TimeoutFire"
    using t1 by simp
  with first(1,2,6) fetch u1 t1 second(1-4) d2 count_step [of t e] show ?thesis
    by (simp only: simp_thms)
qed

theorem upload_success_order_witness:
  "mounted uploading_state \<and> isUploading uploading_state
   \<and> addFileStatus uploading_state = MPending
   \<and> addFileInflight uploading_state = [(True, Awaiting (Inr ()))]
   \<and> timeouts uploading_state = []
   \<and> trace (step uploading_state (AddFileSettle 0)) =
        trace uploading_state @
        [AddFileResolved, InvalidateFiles, Remote GetFilesCall, SetUploadProgress 100,
         Notify (ToastSuccess ''File uploaded successfully!'' NoDescription),
         SetTimeout 500]
   \<and> filesFetch (step uploading_state (AddFileSettle 0)) = Some (Some accepting_actor, 0, Inr [])
   \<and> filesData (step uploading_state (AddFileSettle 0)) = Some []
   \<and> uploadProgress (step uploading_state (AddFileSettle 0)) = 100
   \<and> isUploading (step uploading_state (AddFileSettle 0))
   \<and> \<not> isUploading (step (step uploading_state (AddFileSettle 0)) TimeoutFire)
   \<and> uploadProgress (step (step uploading_state (AddFileSettle 0)) TimeoutFire) = 0"
proof -
  have h: "mounted uploading_state" "isUploading uploading_state"
    "addFileStatus uploading_state = MPending"
    "addFileInflight uploading_state = [(True, Awaiting (Inr ()))]" "timeouts uploading_state = []"
    by (simp_all add: uploading_state_eq initial_def)
  have a: "actor uploading_state = Some accepting_actor" "\<not> actorFetching uploading_state"
    "filesFetch uploading_state = None" "filesData uploading_state = Some []"
    "getFiles accepting_actor = Inr []"
    by (simp_all add: uploading_state_eq initial_def accepting_actor_def)
  from upload_success_order [OF h] h a show ?thesis
    by (simp add: useGetFiles_enabled_def useGetFiles_queryFn_def)
qed




text \<open>
  C10. Without an actor the query function makes no remote call and resolves to the
  empty list, the same value as with an actor whose remote list is empty.  The query is
  enabled exactly when an actor is present and \<^verbatim>\<open>useActor\<close> is not fetching; without an
  actor neither the query observer nor an invalidation starts a fetch, and the component
  reads the empty list from absent data as from an empty cached list.
\<close>

theorem listing_without_actor:
  "useGetFiles_queryFn None = ([], Inr [])
   \<and> snd (useGetFiles_queryFn None) = snd (useGetFiles_queryFn (Some (act\<lparr>getFiles := Inr []\<rparr>)))
   \<and> useGetFiles_enabled a isFetching = (a \<noteq> None \<and> \<not> isFetching)
   \<and> \<not> useGetFiles_enabled None isFetching
   \<and> query_sync wasEnabled (s\<lparr>actor := None\<rparr>) = s\<lparr>actor := None\<rparr>
   \<and> actor_change None isFetching s = s\<lparr>actor := None, actorFetching := isFetching\<rparr>
   \<and> invalidateQueries (s\<lparr>actor := None\<rparr>) =
       s\<lparr>actor := None, filesInvalidated := True, trace := trace s @ [InvalidateFiles]\<rparr>
   \<and> files initial = []
   \<and> files (s\<lparr>filesData := None\<rparr>) = files (s\<lparr>filesData := Some []\<rparr>)"
  by (simp add: useGetFiles_queryFn_def useGetFiles_enabled_def query_sync_def actor_change_def
        invalidateQueries_nf files_def initial_def)

end
